theory Spec2Isabelle
  imports Main
begin

section \<open>Strings\<close>

text \<open>
  A JavaScript string is a sequence of UTF-16 code units; a code unit is modelled as a
  natural number. \<open>js\<close> turns an ASCII literal into such a string and \<open>cu\<close> a
  single ASCII character into its code unit.
\<close>

type_synonym jsstring = "nat list"

definition cu :: "char \<Rightarrow> nat" where
  "cu c = of_char c"

definition js :: "string \<Rightarrow> jsstring" where
  "js s = map cu s"

definition between :: "char \<Rightarrow> char \<Rightarrow> nat \<Rightarrow> bool" where
  "between lo hi c = (cu lo \<le> c \<and> c \<le> cu hi)"

text \<open>
  \<open>String.prototype.trim\<close>: removes the leading and trailing run of WhiteSpace and
  LineTerminator code units (ECMA-262, 12.2 and 12.3).
\<close>

definition is_space :: "nat \<Rightarrow> bool" where
  "is_space c = (c \<in> set [0x9, 0xA, 0xB, 0xC, 0xD, 0x20, 0xA0, 0x1680, 0x2000, 0x2001,
     0x2002, 0x2003, 0x2004, 0x2005, 0x2006, 0x2007, 0x2008, 0x2009, 0x200A, 0x2028,
     0x2029, 0x202F, 0x205F, 0x3000, 0xFEFF])"

definition trim :: "jsstring \<Rightarrow> jsstring" where
  "trim s = rev (dropWhile is_space (rev (dropWhile is_space s)))"

text \<open>
  \<open>String.prototype.toUpperCase\<close>, code unit by code unit. The ASCII letters and every
  character whose Unicode upper-case form contains an ASCII letter (the entries of
  \<open>special_upper\<close>, from SpecialCasing/UnicodeData) are mapped as Unicode does, and so
  are the Cyrillic letters of the plate alphabet. Every other code unit is left in place:
  its real upper-case form lies outside ASCII as well, and the only use of the function
  is followed by the removal of everything outside \<open>[A-Za-z0-9]\<close>.
\<close>

definition special_upper :: "(nat \<times> jsstring) list" where
  "special_upper =
    [(0x00DF, js ''SS''), (0x0131, js ''I''), (0x0149, [0x02BC, cu CHR ''N'']),
     (0x017F, js ''S''), (0x01F0, [cu CHR ''J'', 0x030C]), (0x1E96, [cu CHR ''H'', 0x0331]),
     (0x1E97, [cu CHR ''T'', 0x0308]), (0x1E98, [cu CHR ''W'', 0x030A]),
     (0x1E99, [cu CHR ''Y'', 0x030A]), (0x1E9A, [cu CHR ''A'', 0x02BE]),
     (0xFB00, js ''FF''), (0xFB01, js ''FI''), (0xFB02, js ''FL''), (0xFB03, js ''FFI''),
     (0xFB04, js ''FFL''), (0xFB05, js ''ST''), (0xFB06, js ''ST'')]"

definition upper_unit :: "nat \<Rightarrow> jsstring" where
  "upper_unit c =
    (if between CHR ''a'' CHR ''z'' c then [c - 32]
     else case map_of special_upper c of
       Some us \<Rightarrow> us
     | None \<Rightarrow>
         if 0x0430 \<le> c \<and> c \<le> 0x044F then [c - 0x20]
         else if 0x0450 \<le> c \<and> c \<le> 0x045F then [c - 0x50]
         else if c = 0x0491 then [0x0490]
         else [c])"

definition toUpperCase :: "jsstring \<Rightarrow> jsstring" where
  "toUpperCase s = concat (map upper_unit s)"

section \<open>Regular expressions of the helpers\<close>

text \<open>\<open>/[^A-Za-z0-9]/g\<close>: the class it negates, and the global replace by \<open>''\<close>.\<close>

definition alnum_class :: "nat \<Rightarrow> bool" where
  "alnum_class c =
    (between CHR ''A'' CHR ''Z'' c \<or> between CHR ''a'' CHR ''z'' c \<or> between CHR ''0'' CHR ''9'' c)"

definition replace_NON_ALNUM :: "jsstring \<Rightarrow> jsstring" where
  "replace_NON_ALNUM s = filter alnum_class s"

text \<open>\<open>/^[A-HJ-NPR-Z0-9]{17}$/\<close>\<close>

definition vin_class :: "nat \<Rightarrow> bool" where
  "vin_class c =
    (between CHR ''A'' CHR ''H'' c \<or> between CHR ''J'' CHR ''N'' c \<or> c = cu CHR ''P'' \<or>
     between CHR ''R'' CHR ''Z'' c \<or> between CHR ''0'' CHR ''9'' c)"

definition VIN_RE :: "jsstring \<Rightarrow> bool" where
  "VIN_RE v = (length v = 17 \<and> list_all vin_class v)"

text \<open>
  The plate pattern \<open>/^[A-Z<U+0410>-<U+042F><U+0406><U+0407><U+0404><U+0490>0-9]{5,10}$/\<close>:
  Latin capitals, the Cyrillic capitals U+0410..U+042F, the four Ukrainian capitals
  U+0406, U+0407, U+0404, U+0490, and the digits.
\<close>

definition plate_class :: "nat \<Rightarrow> bool" where
  "plate_class c =
    (between CHR ''A'' CHR ''Z'' c \<or> (0x0410 \<le> c \<and> c \<le> 0x042F) \<or> c = 0x0406 \<or>
     c = 0x0407 \<or> c = 0x0404 \<or> c = 0x0490 \<or> between CHR ''0'' CHR ''9'' c)"

definition PLATE_RE :: "jsstring \<Rightarrow> bool" where
  "PLATE_RE v = (5 \<le> length v \<and> length v \<le> 10 \<and> list_all plate_class v)"

section \<open>VIN checksum (ISO 3779)\<close>

definition translit :: "nat \<Rightarrow> nat option" where
  "translit = map_of
    [(cu CHR ''A'', 1), (cu CHR ''B'', 2), (cu CHR ''C'', 3), (cu CHR ''D'', 4),
     (cu CHR ''E'', 5), (cu CHR ''F'', 6), (cu CHR ''G'', 7), (cu CHR ''H'', 8),
     (cu CHR ''J'', 1), (cu CHR ''K'', 2), (cu CHR ''L'', 3), (cu CHR ''M'', 4),
     (cu CHR ''N'', 5), (cu CHR ''P'', 7), (cu CHR ''R'', 9), (cu CHR ''S'', 2),
     (cu CHR ''T'', 3), (cu CHR ''U'', 4), (cu CHR ''V'', 5), (cu CHR ''W'', 6),
     (cu CHR ''X'', 7), (cu CHR ''Y'', 8), (cu CHR ''Z'', 9), (cu CHR ''0'', 0),
     (cu CHR ''1'', 1), (cu CHR ''2'', 2), (cu CHR ''3'', 3), (cu CHR ''4'', 4),
     (cu CHR ''5'', 5), (cu CHR ''6'', 6), (cu CHR ''7'', 7), (cu CHR ''8'', 8),
     (cu CHR ''9'', 9)]"

definition weights :: "nat list" where
  "weights = [8, 7, 6, 5, 4, 3, 2, 10, 0, 9, 8, 7, 6, 5, 4, 3, 2]"

text \<open>
  \<open>weights[i]\<close> is \<open>undefined\<close> past the end of the array, and the product with it, and
  every later sum, is \<open>NaN\<close>: the accumulator of the \<open>reduce\<close> is an option, \<open>None\<close>
  standing for \<open>NaN\<close>.
\<close>

definition weight_at :: "nat \<Rightarrow> nat option" where
  "weight_at i = (if i < length weights then Some (weights ! i) else None)"

definition translit_or_0 :: "nat \<Rightarrow> nat" where
  "translit_or_0 c = (case translit c of Some n \<Rightarrow> n | None \<Rightarrow> 0)"

fun reduce_sum :: "nat option \<Rightarrow> nat \<Rightarrow> jsstring \<Rightarrow> nat option" where
  "reduce_sum acc i [] = acc"
| "reduce_sum acc i (c # cs) =
    reduce_sum
      (case acc of
         None \<Rightarrow> None
       | Some a \<Rightarrow> (case weight_at i of None \<Rightarrow> None | Some w \<Rightarrow> Some (a + translit_or_0 c * w)))
      (Suc i) cs"

text \<open>\<open>String(n)\<close> for a non-negative integer: its decimal digits.\<close>

fun String_nat :: "nat \<Rightarrow> jsstring" where
  "String_nat n = (if n < 10 then [cu CHR ''0'' + n] else String_nat (n div 10) @ [cu CHR ''0'' + n mod 10])"

declare String_nat.simps [simp del]

text \<open>\<open>s[i]\<close>: the one-unit string at index \<open>i\<close>, \<open>undefined\<close> (\<open>None\<close>) out of range.\<close>

definition char_at :: "jsstring \<Rightarrow> nat \<Rightarrow> jsstring option" where
  "char_at s i = (if i < length s then Some [s ! i] else None)"

definition vinChecksumValid :: "jsstring \<Rightarrow> bool" where
  "vinChecksumValid vin =
    (if \<not> VIN_RE vin then False
     else case reduce_sum (Some 0) 0 vin of
       None \<Rightarrow> False
     | Some sm \<Rightarrow>
         (let remainder = sm mod 11;
              check = (if remainder = 10 then js ''X'' else String_nat remainder)
          in char_at vin 8 = Some check))"

section \<open>Input normalizer\<close>

datatype kind = Vin | Plate | Unknown

record normalized =
  kind :: kind
  "value" :: jsstring

definition isLikelyVIN :: "jsstring \<Rightarrow> bool" where
  "isLikelyVIN v = (VIN_RE v \<and> vinChecksumValid v)"

text \<open>
  \<open>q || ''\<close> is \<open>q\<close> itself for every string \<open>q\<close> (the only falsy string is \<open>''\<close>).
\<close>

definition normalizeQuery :: "jsstring \<Rightarrow> normalized" where
  "normalizeQuery q =
    (let v = replace_NON_ALNUM (toUpperCase (trim (if q = [] then [] else q)))
     in if isLikelyVIN v then \<lparr>kind = Vin, value = v\<rparr>
        else if PLATE_RE v then \<lparr>kind = Plate, value = v\<rparr>
        else \<lparr>kind = Unknown, value = v\<rparr>)"

section \<open>JSON values and their serialization\<close>

text \<open>
  The decode response is whatever JSON the registry sends. Numbers are integers here (the
  registry's only numeric field is a count). An object is the list of its own properties
  in enumeration order, with distinct keys.
\<close>

datatype json =
  JNull
| JBool bool
| JNum int
| JStr jsstring
| JArr "json list"
| JObj "(jsstring \<times> json) list"

text \<open>Truthiness, as \<open>||\<close>, \<open>!\<close> and \<open>!!\<close> read it.\<close>

fun truthy :: "json \<Rightarrow> bool" where
  "truthy JNull = False"
| "truthy (JBool b) = b"
| "truthy (JNum n) = (n \<noteq> 0)"
| "truthy (JStr s) = (s \<noteq> [])"
| "truthy (JArr xs) = True"
| "truthy (JObj kvs) = True"

text \<open>
  \<open>x.name\<close> on a value that is neither \<open>null\<close> nor \<open>undefined\<close>, for the property
  names this program reads (none of them is defined on strings, arrays, numbers or
  booleans): \<open>None\<close> is \<open>undefined\<close>.
\<close>

fun get_prop :: "json \<Rightarrow> jsstring \<Rightarrow> json option" where
  "get_prop (JObj kvs) k = map_of kvs k"
| "get_prop x k = None"

text \<open>\<open>x[0]\<close> on a value that is neither \<open>null\<close> nor \<open>undefined\<close>.\<close>

fun index0 :: "json \<Rightarrow> json option" where
  "index0 (JArr xs) = (case xs of [] \<Rightarrow> None | x # _ \<Rightarrow> Some x)"
| "index0 (JStr s) = (case s of [] \<Rightarrow> None | c # _ \<Rightarrow> Some (JStr [c]))"
| "index0 (JObj kvs) = map_of kvs (js ''0'')"
| "index0 x = None"

text \<open>Optional chaining \<open>x?.f\<close>: \<open>undefined\<close> when \<open>x\<close> is \<open>null\<close> or \<open>undefined\<close>.\<close>

definition opt_chain :: "json option \<Rightarrow> (json \<Rightarrow> json option) \<Rightarrow> json option" where
  "opt_chain x f = (case x of None \<Rightarrow> None | Some JNull \<Rightarrow> None | Some v \<Rightarrow> f v)"

text \<open>\<open>nhtsa?.Results?.[0]\<close>\<close>

definition first_result :: "json option \<Rightarrow> json option" where
  "first_result nhtsa = opt_chain (opt_chain nhtsa (\<lambda>v. get_prop v (js ''Results''))) index0"

definition hex_digit :: "nat \<Rightarrow> nat" where
  "hex_digit d = (if d < 10 then cu CHR ''0'' + d else cu CHR ''a'' + (d - 10))"

definition unicode_escape :: "nat \<Rightarrow> jsstring" where
  "unicode_escape c =
    js [CHR 0x5C, CHR ''u''] @
    [hex_digit (c div 4096 mod 16), hex_digit (c div 256 mod 16),
     hex_digit (c div 16 mod 16), hex_digit (c mod 16)]"

definition is_high_surrogate :: "nat \<Rightarrow> bool" where
  "is_high_surrogate c = (0xD800 \<le> c \<and> c \<le> 0xDBFF)"

definition is_low_surrogate :: "nat \<Rightarrow> bool" where
  "is_low_surrogate c = (0xDC00 \<le> c \<and> c \<le> 0xDFFF)"

text \<open>
  QuoteJSONString without the enclosing quotes: the two-character escapes, \<open>\uXXXX\<close>
  (lower-case hex) for the other control characters and for unpaired surrogates, and
  everything else as it is.
\<close>

definition escape_unit :: "nat \<Rightarrow> jsstring" where
  "escape_unit c =
    (if c = 0x08 then js [CHR 0x5C, CHR ''b'']
     else if c = 0x09 then js [CHR 0x5C, CHR ''t'']
     else if c = 0x0A then js [CHR 0x5C, CHR ''n'']
     else if c = 0x0C then js [CHR 0x5C, CHR ''f'']
     else if c = 0x0D then js [CHR 0x5C, CHR ''r'']
     else if c = 0x22 then js [CHR 0x5C, CHR 0x22]
     else if c = 0x5C then js [CHR 0x5C, CHR 0x5C]
     else if c < 0x20 \<or> is_high_surrogate c \<or> is_low_surrogate c then unicode_escape c
     else [c])"

fun quote_body :: "jsstring \<Rightarrow> jsstring" where
  "quote_body [] = []"
| "quote_body [c] = escape_unit c"
| "quote_body (c # d # cs) =
    (if is_high_surrogate c \<and> is_low_surrogate d then c # d # quote_body cs
     else escape_unit c @ quote_body (d # cs))"

definition quote :: "jsstring \<Rightarrow> jsstring" where
  "quote s = js [CHR 0x22] @ quote_body s @ js [CHR 0x22]"

text \<open>\<open>Array.prototype.join\<close> on an array of strings.\<close>

fun join :: "jsstring \<Rightarrow> jsstring list \<Rightarrow> jsstring" where
  "join sep [] = []"
| "join sep [x] = x"
| "join sep (x # y # ys) = x @ sep @ join sep (y # ys)"

definition String_int :: "int \<Rightarrow> jsstring" where
  "String_int n = (if n < 0 then js ''-'' @ String_nat (nat (- n)) else String_nat (nat n))"

text \<open>\<open>JSON.stringify\<close> without indentation.\<close>

fun stringify :: "json \<Rightarrow> jsstring" where
  "stringify JNull = js ''null''"
| "stringify (JBool b) = (if b then js ''true'' else js ''false'')"
| "stringify (JNum n) = String_int n"
| "stringify (JStr s) = quote s"
| "stringify (JArr xs) = js ''['' @ join (js '','') (map stringify xs) @ js '']''"
| "stringify (JObj kvs) =
    js ''{'' @ join (js '','') (map (\<lambda>kv. quote (fst kv) @ js '':'' @ stringify (snd kv)) kvs) @ js ''}''"

section \<open>Lower case and substring search\<close>

text \<open>
  \<open>String.prototype.toLowerCase\<close>, code unit by code unit. The ASCII letters and the two
  characters whose Unicode lower-case form contains an ASCII letter (U+0130, U+212A) are
  mapped as Unicode does. Every other code unit is left in place: its real lower-case
  form lies outside ASCII as well, and the function is only used to search for the ASCII
  keywords.
\<close>

definition lower_unit :: "nat \<Rightarrow> jsstring" where
  "lower_unit c =
    (if between CHR ''A'' CHR ''Z'' c then [c + 32]
     else if c = 0x0130 then [cu CHR ''i'', 0x0307]
     else if c = 0x212A then [cu CHR ''k'']
     else [c])"

definition toLowerCase :: "jsstring \<Rightarrow> jsstring" where
  "toLowerCase s = concat (map lower_unit s)"

text \<open>\<open>text.includes(kw)\<close>: \<open>kw\<close> occurs in \<open>text\<close> as a contiguous substring.\<close>

fun str_includes :: "jsstring \<Rightarrow> jsstring \<Rightarrow> bool" where
  "str_includes [] kw = (kw = [])"
| "str_includes (c # cs) kw = (take (length kw) (c # cs) = kw \<or> str_includes cs kw)"

text \<open>
  \<open>/copart|iaai|auction|salvage/i\<close>. Without the \<open>u\<close> flag the \<open>i\<close> flag compares
  upper-cased code units and never lets a non-ASCII unit match an ASCII one, so a pattern
  letter matches exactly its two ASCII cases.
\<close>

definition ascii_lower :: "nat \<Rightarrow> nat" where
  "ascii_lower c = (if between CHR ''A'' CHR ''Z'' c then c + 32 else c)"

definition AUCTION_RE :: "jsstring \<Rightarrow> bool" where
  "AUCTION_RE s =
    (let t = map ascii_lower s
     in str_includes t (js ''copart'') \<or> str_includes t (js ''iaai'') \<or>
        str_includes t (js ''auction'') \<or> str_includes t (js ''salvage''))"

definition RISK_KEYWORDS :: "jsstring list" where
  "RISK_KEYWORDS =
    [js ''salvage'', js ''totaled'', js ''accident'', js ''crash'', js ''flood'', js ''hail'',
     js ''fire'', js ''theft'', js ''stolen'', js ''copart'', js ''iaai'', js ''auction'',
     js ''odometer rollback'', js ''mileage rollback'', js ''write-off'', js ''damaged'',
     js ''repairable'']"

section \<open>State of the graph\<close>

text \<open>
  Optional object fields are options, \<open>None\<close> standing for an absent or \<open>undefined\<close>
  field. A web hit is \<open>{ title, link, snippet }\<close>; the aggregate is the bag
  \<open>{ vin, plate, vinValid, nhtsa, webHits, risks, markers, report, facts }\<close>.
\<close>

record webhit =
  title :: "jsstring option"
  link :: "jsstring option"
  snippet :: "jsstring option"

record vehicle_facts =
  Make :: "json option"
  Model :: "json option"
  ModelYear :: "json option"
  BodyClass :: "json option"
  VehicleType :: "json option"
  PlantCountry :: "json option"

record marker =
  ok :: bool
  "note" :: "jsstring option"

record marker_set =
  input_type :: marker
  vin_checksum :: "marker option"
  vin_decoded :: "marker option"
  web_presence :: marker
  risk_flags :: marker

record aggregate =
  vin :: "jsstring option"
  plate :: "jsstring option"
  vinValid :: "bool option"
  nhtsa :: "json option"
  webHits :: "webhit list option"
  risks :: "jsstring list option"
  markers :: "marker_set option"
  report :: "jsstring option"
  facts :: "vehicle_facts option"

definition empty_aggregate :: aggregate where
  "empty_aggregate =
    \<lparr>vin = None, plate = None, vinValid = None, nhtsa = None, webHits = None, risks = None,
     markers = None, report = None, facts = None\<rparr>"

text \<open>
  The three channels of \<open>State\<close>: \<open>input\<close> holds \<open>{ q }\<close>; \<open>norm\<close> and
  \<open>aggregates\<close> are \<open>undefined\<close> until a node writes them (the channels have no
  reducer, so the \<open>default\<close> given for \<open>aggregates\<close> is not used).
\<close>

record state =
  input :: jsstring
  norm :: "normalized option"
  aggregates :: "aggregate option"

text \<open>What a node returns: the channels it writes.\<close>

record patch =
  p_norm :: "normalized option"
  p_aggregates :: "aggregate option"

definition empty_patch :: patch where
  "empty_patch = \<lparr>p_norm = None, p_aggregates = None\<rparr>"

datatype error = TypeError | Error jsstring

section \<open>External calls\<close>

text \<open>
  The collaborators are parameters: \<open>axios_get\<close> answers a URL with the response's
  \<open>data\<close> or rejects; \<open>tv_search\<close> answers a query with the \<open>results\<close> of the search
  (\<open>None\<close> when the response has none) or rejects; \<open>model_invoke\<close> answers the prompt
  with the \<open>content\<close> of the reply or rejects. The prompt is a fixed text around the
  serialized \<open>report_data\<close>, so the model is given that record.
\<close>

record tavily_result =
  r_title :: "jsstring option"
  r_url :: "jsstring option"
  r_content :: "jsstring option"

record report_data =
  d_vin :: "jsstring option"
  d_plate :: "jsstring option"
  d_facts :: "vehicle_facts option"
  d_markers :: "marker_set option"
  d_hits :: "webhit list"

record env =
  axios_get :: "jsstring \<Rightarrow> error + json option"
  TAVILY_API_KEY :: "jsstring option"
  tv_search :: "jsstring option \<Rightarrow> error + tavily_result list option"
  model_invoke :: "report_data \<Rightarrow> error + jsstring"

definition nhtsaDecodeVin :: "env \<Rightarrow> jsstring \<Rightarrow> error + json option" where
  "nhtsaDecodeVin e v =
    axios_get e (js ''https://vpic.nhtsa.dot.gov/api/vehicles/decodevinvalues/'' @ v @ js ''?format=json'')"

definition webSearch :: "env \<Rightarrow> jsstring option \<Rightarrow> error + webhit list" where
  "webSearch e query =
    (if TAVILY_API_KEY e = None \<or> TAVILY_API_KEY e = Some [] then Inl (Error (js ''Set TAVILY_API_KEY''))
     else case tv_search e query of
       Inl err \<Rightarrow> Inl err
     | Inr res \<Rightarrow>
         Inr (map (\<lambda>r. \<lparr>title = r_title r, link = r_url r, snippet = r_content r\<rparr>)
                (case res of None \<Rightarrow> [] | Some rs \<Rightarrow> rs)))"

section \<open>Nodes\<close>

definition nodeNormalize :: "state \<Rightarrow> error + patch" where
  "nodeNormalize st =
    (let n = normalizeQuery (input st);
         a0 = (case aggregates st of None \<Rightarrow> empty_aggregate | Some a \<Rightarrow> a);
         a1 = (if kind n = Vin
               then a0\<lparr>vin := Some (value n), vinValid := Some (vinChecksumValid (value n))\<rparr>
               else a0);
         a2 = (if kind n = Plate then a1\<lparr>plate := Some (value n)\<rparr> else a1)
     in Inr \<lparr>p_norm = Some n, p_aggregates = Some a2\<rparr>)"

text \<open>\<open>nhtsa?.Results?.[0] || {}\<close>\<close>

definition first_row :: "json option \<Rightarrow> json" where
  "first_row data =
    (case first_result data of
       None \<Rightarrow> JObj []
     | Some r \<Rightarrow> if truthy r then r else JObj [])"

definition nodeVinInfo :: "env \<Rightarrow> state \<Rightarrow> error + patch" where
  "nodeVinInfo e st =
    (case norm st of
       None \<Rightarrow> Inl TypeError
     | Some n \<Rightarrow>
         (if kind n \<noteq> Vin then Inr empty_patch
          else (case aggregates st of
                  None \<Rightarrow> Inl TypeError
                | Some a \<Rightarrow>
                    (case vin a of
                       None \<Rightarrow> Inr empty_patch
                     | Some v \<Rightarrow>
                         (if v = [] then Inr empty_patch
                          else (case nhtsaDecodeVin e v of
                                  Inl err \<Rightarrow> Inl err
                                | Inr data \<Rightarrow>
                                    (let row = first_row data;
                                         f = \<lparr>Make = get_prop row (js ''Make''),
                                              Model = get_prop row (js ''Model''),
                                              ModelYear = get_prop row (js ''ModelYear''),
                                              BodyClass = get_prop row (js ''BodyClass''),
                                              VehicleType = get_prop row (js ''VehicleType''),
                                              PlantCountry = get_prop row (js ''PlantCountry'')\<rparr>
                                     in Inr \<lparr>p_norm = None,
                                             p_aggregates =
                                               Some (a\<lparr>nhtsa := data, facts := Some f\<rparr>)\<rparr>)))))))"

definition nodeWebSearch :: "env \<Rightarrow> state \<Rightarrow> error + patch" where
  "nodeWebSearch e st =
    (case norm st of
       None \<Rightarrow> Inl TypeError
     | Some n \<Rightarrow>
         (case aggregates st of
            None \<Rightarrow> Inl TypeError
          | Some a \<Rightarrow>
              (let query = (if kind n = Vin then vin a
                            else if plate a = None \<or> plate a = Some [] then Some (input st)
                            else plate a)
               in case webSearch e query of
                    Inl err \<Rightarrow> Inl err
                  | Inr hits \<Rightarrow> Inr \<lparr>p_norm = None, p_aggregates = Some (a\<lparr>webHits := Some hits\<rparr>)\<rparr>)))"

text \<open>A hit as \<open>JSON.stringify\<close> sees it: \<open>undefined\<close> properties are left out.\<close>

definition opt_field :: "string \<Rightarrow> jsstring option \<Rightarrow> (jsstring \<times> json) list" where
  "opt_field k v = (case v of None \<Rightarrow> [] | Some s \<Rightarrow> [(js k, JStr s)])"

definition hit_json :: "webhit \<Rightarrow> json" where
  "hit_json h =
    JObj (opt_field ''title'' (title h) @ opt_field ''link'' (link h) @ opt_field ''snippet'' (snippet h))"

text \<open>\<open>aggregates.webHits || []\<close>\<close>

definition hits_of :: "aggregate \<Rightarrow> webhit list" where
  "hits_of a = (case webHits a of None \<Rightarrow> [] | Some hs \<Rightarrow> hs)"

text \<open>
  \<open>JSON.stringify(aggregates.webHits || []) + ' ' + JSON.stringify(aggregates.nhtsa || {})\<close>
\<close>

definition risk_text :: "aggregate \<Rightarrow> jsstring" where
  "risk_text a =
    stringify (JArr (map hit_json (hits_of a))) @ js '' '' @
    stringify (case nhtsa a of None \<Rightarrow> JObj [] | Some v \<Rightarrow> if truthy v then v else JObj [])"

text \<open>\<open>Set.prototype.add\<close> on a set kept in insertion order.\<close>

definition set_add :: "jsstring list \<Rightarrow> jsstring \<Rightarrow> jsstring list" where
  "set_add rs x = (if x \<in> set rs then rs else rs @ [x])"

definition auctionCount :: "aggregate \<Rightarrow> nat" where
  "auctionCount a =
    length (filter (\<lambda>h. AUCTION_RE (case link h of None \<Rightarrow> [] | Some l \<Rightarrow> l)) (hits_of a))"

definition evaluate_risks :: "aggregate \<Rightarrow> jsstring list" where
  "evaluate_risks a =
    (let text = risk_text a;
         found = foldl (\<lambda>rs kw. if str_includes (toLowerCase text) kw then set_add rs kw else rs)
                   [] RISK_KEYWORDS
     in if auctionCount a \<ge> 2 then set_add found (js ''multiple_auctions'') else found)"

definition nodeRisks :: "state \<Rightarrow> error + patch" where
  "nodeRisks st =
    (case aggregates st of
       None \<Rightarrow> Inl TypeError
     | Some a \<Rightarrow> Inr \<lparr>p_norm = None, p_aggregates = Some (a\<lparr>risks := Some (evaluate_risks a)\<rparr>)\<rparr>)"

definition kind_name :: "kind \<Rightarrow> jsstring" where
  "kind_name k = (case k of Vin \<Rightarrow> js ''vin'' | Plate \<Rightarrow> js ''plate'' | Unknown \<Rightarrow> js ''unknown'')"

text \<open>\<open>!!(aggregates.nhtsa?.Results?.[0]?.Model)\<close>\<close>

definition decodedOk :: "aggregate \<Rightarrow> bool" where
  "decodedOk a =
    (case opt_chain (first_result (nhtsa a)) (\<lambda>r. get_prop r (js ''Model'')) of
       None \<Rightarrow> False
     | Some m \<Rightarrow> truthy m)"

definition compute_markers :: "normalized \<Rightarrow> aggregate \<Rightarrow> marker_set" where
  "compute_markers n a =
    (let hasWeb = (length (hits_of a) > 0);
         rs = (case risks a of None \<Rightarrow> [] | Some r \<Rightarrow> r);
         risky = (length rs > 0)
     in \<lparr>input_type = \<lparr>ok = (kind n \<noteq> Unknown), note = Some (kind_name (kind n))\<rparr>,
         vin_checksum =
           (if kind n = Vin then Some \<lparr>ok = (vinValid a = Some True), note = vin a\<rparr> else None),
         vin_decoded =
           (if kind n = Vin
            then Some \<lparr>ok = decodedOk a,
                       note = Some (if decodedOk a then js ''NHTSA decoded'' else js ''no decode'')\<rparr>
            else None),
         web_presence =
           \<lparr>ok = hasWeb,
            note = Some (if hasWeb then String_nat (length (hits_of a)) @ js '' hits'' else js ''no hits'')\<rparr>,
         risk_flags =
           \<lparr>ok = (\<not> risky), note = Some (if risky then join (js '', '') rs else js ''none'')\<rparr>\<rparr>)"

definition nodeMarkers :: "state \<Rightarrow> error + patch" where
  "nodeMarkers st =
    (case norm st of
       None \<Rightarrow> Inl TypeError
     | Some n \<Rightarrow>
         (case aggregates st of
            None \<Rightarrow> Inl TypeError
          | Some a \<Rightarrow>
              Inr \<lparr>p_norm = None, p_aggregates = Some (a\<lparr>markers := Some (compute_markers n a)\<rparr>)\<rparr>))"

definition nodeReport :: "env \<Rightarrow> state \<Rightarrow> error + patch" where
  "nodeReport e st =
    (case aggregates st of
       None \<Rightarrow> Inl TypeError
     | Some a \<Rightarrow>
         (case model_invoke e
                 \<lparr>d_vin = vin a, d_plate = plate a, d_facts = facts a, d_markers = markers a,
                  d_hits = take 8 (hits_of a)\<rparr> of
            Inl err \<Rightarrow> Inl err
          | Inr content \<Rightarrow> Inr \<lparr>p_norm = None, p_aggregates = Some (a\<lparr>report := Some content\<rparr>)\<rparr>))"

section \<open>Graph\<close>

datatype stage = Normalize | Vin_info | Web_search | Risks | Markers | Report

definition stage_name :: "stage \<Rightarrow> jsstring" where
  "stage_name s =
    (case s of Normalize \<Rightarrow> js ''normalize'' | Vin_info \<Rightarrow> js ''vin_info''
     | Web_search \<Rightarrow> js ''web_search'' | Risks \<Rightarrow> js ''risks'' | Markers \<Rightarrow> js ''markers''
     | Report \<Rightarrow> js ''report'')"

text \<open>The \<open>addNode\<close> registrations.\<close>

definition node :: "env \<Rightarrow> stage \<Rightarrow> state \<Rightarrow> error + patch" where
  "node e s st =
    (case s of
       Normalize \<Rightarrow> nodeNormalize st
     | Vin_info \<Rightarrow> nodeVinInfo e st
     | Web_search \<Rightarrow> nodeWebSearch e st
     | Risks \<Rightarrow> nodeRisks st
     | Markers \<Rightarrow> nodeMarkers st
     | Report \<Rightarrow> nodeReport e st)"

text \<open>The \<open>addEdge\<close> chain from \<open>START\<close> to \<open>END\<close>.\<close>

definition graph :: "stage list" where
  "graph = [Normalize, Vin_info, Web_search, Risks, Markers, Report]"

text \<open>
  The compiled graph is run by the LangGraph library: it calls the nodes along the
  edges, writes the channels a node returns over the state (a channel without reducer
  keeps the last value written), and a node that rejects makes \<open>invoke\<close> reject with
  that same error, no later node being called. \<open>run_stages\<close> also returns the steps
  that completed, each with the patch returned and the state after it.
\<close>

definition apply_patch :: "state \<Rightarrow> patch \<Rightarrow> state" where
  "apply_patch st p =
    st\<lparr>norm := (case p_norm p of None \<Rightarrow> norm st | Some n \<Rightarrow> Some n),
       aggregates := (case p_aggregates p of None \<Rightarrow> aggregates st | Some a \<Rightarrow> Some a)\<rparr>"

fun run_stages :: "env \<Rightarrow> stage list \<Rightarrow> state \<Rightarrow> (stage \<times> patch \<times> state) list \<times> (error + state)" where
  "run_stages e [] st = ([], Inr st)"
| "run_stages e (s # ss) st =
    (case node e s st of
       Inl err \<Rightarrow> ([], Inl err)
     | Inr p \<Rightarrow>
         (let st' = apply_patch st p; r = run_stages e ss st'
          in ((s, p, st') # fst r, snd r)))"

text \<open>\<open>app.invoke({ input: { q } })\<close>\<close>

definition initial_state :: "jsstring \<Rightarrow> state" where
  "initial_state q = \<lparr>input = q, norm = None, aggregates = None\<rparr>"

definition invoke :: "env \<Rightarrow> jsstring \<Rightarrow> error + state" where
  "invoke e q = snd (run_stages e graph (initial_state q))"

definition completed :: "env \<Rightarrow> jsstring \<Rightarrow> (stage \<times> patch \<times> state) list" where
  "completed e q = fst (run_stages e graph (initial_state q))"

section \<open>Notions used in the statements\<close>

subsection \<open>Alphabets and the checksum as the standard words it\<close>

definition vin_alphabet :: "nat set" where
  "vin_alphabet = set (js ''ABCDEFGHJKLMNPRSTUVWXYZ0123456789'')"

definition alnum_alphabet :: "nat set" where
  "alnum_alphabet = set (js ''ABCDEFGHIJKLMNOPQRSTUVWXYZabcdefghijklmnopqrstuvwxyz0123456789'')"

definition latin_plate_alphabet :: "nat set" where
  "latin_plate_alphabet = set (js ''ABCDEFGHIJKLMNOPQRSTUVWXYZ0123456789'')"

definition cyrillic_plate_alphabet :: "nat set" where
  "cyrillic_plate_alphabet = {0x0410..0x042F} \<union> {0x0406, 0x0407, 0x0404, 0x0490}"

text \<open>
  ISO 3779 read position by position: the transliterated value of each of the 17
  characters times the weight of its position, summed, modulo 11; and the check
  character that remainder stands for.
\<close>

definition iso3779_remainder :: "jsstring \<Rightarrow> nat" where
  "iso3779_remainder v = (\<Sum>i<17. the (translit (v ! i)) * weights ! i) mod 11"

definition iso3779_check :: "jsstring \<Rightarrow> nat" where
  "iso3779_check v =
    (if iso3779_remainder v = 10 then cu CHR ''X'' else cu CHR ''0'' + iso3779_remainder v)"

definition reference_vin :: jsstring where
  "reference_vin = js ''1HGCM82633A004352''"

subsection \<open>The cleaned value\<close>

definition cleaned :: "jsstring \<Rightarrow> jsstring" where
  "cleaned q = replace_NON_ALNUM (toUpperCase (trim q))"

definition classify :: "jsstring \<Rightarrow> normalized" where
  "classify v =
    (if isLikelyVIN v then \<lparr>kind = Vin, value = v\<rparr>
     else if PLATE_RE v then \<lparr>kind = Plate, value = v\<rparr>
     else \<lparr>kind = Unknown, value = v\<rparr>)"

definition upper_alnum :: "nat \<Rightarrow> bool" where
  "upper_alnum c = (between CHR ''A'' CHR ''Z'' c \<or> between CHR ''0'' CHR ''9'' c)"

text \<open>The plate pattern without its Cyrillic part: \<open>/^[A-Z0-9]{5,10}$/\<close>.\<close>

definition LATIN_PLATE_RE :: "jsstring \<Rightarrow> bool" where
  "LATIN_PLATE_RE v = (5 \<le> length v \<and> length v \<le> 10 \<and> list_all upper_alnum v)"

text \<open>The Cyrillic block U+0400..U+04FF.\<close>

definition cyrillic :: "nat \<Rightarrow> bool" where
  "cyrillic c = (0x0400 \<le> c \<and> c \<le> 0x04FF)"

text \<open>A plate written in Cyrillic capitals around four digits.\<close>

definition cyrillic_plate :: jsstring where
  "cyrillic_plate = [0x0410, 0x0412] @ js ''1234'' @ [0x0421, 0x0415]"

subsection \<open>Accumulation of the aggregate\<close>

text \<open>
  \<open>keeps x y\<close>: a field that holds a value in \<open>x\<close> holds the same value in \<open>y\<close>;
  \<open>agg_le a b\<close>: so it is for every field of the aggregate.
\<close>

definition keeps :: "'a option \<Rightarrow> 'a option \<Rightarrow> bool" where
  "keeps x y = (case x of None \<Rightarrow> True | Some v \<Rightarrow> y = Some v)"

definition agg_le :: "aggregate \<Rightarrow> aggregate \<Rightarrow> bool" where
  "agg_le a b =
    (keeps (vin a) (vin b) \<and> keeps (plate a) (plate b) \<and> keeps (vinValid a) (vinValid b) \<and>
     keeps (nhtsa a) (nhtsa b) \<and> keeps (webHits a) (webHits b) \<and> keeps (risks a) (risks b) \<and>
     keeps (markers a) (markers b) \<and> keeps (report a) (report b) \<and> keeps (facts a) (facts b))"

definition opt_agg_le :: "aggregate option \<Rightarrow> aggregate option \<Rightarrow> bool" where
  "opt_agg_le x y =
    (case x of
       None \<Rightarrow> True
     | Some a \<Rightarrow> (case y of None \<Rightarrow> False | Some b \<Rightarrow> agg_le a b))"

text \<open>The fields a stage writes are still absent.\<close>

definition unset :: "aggregate \<Rightarrow> stage \<Rightarrow> bool" where
  "unset a s =
    (case s of
       Normalize \<Rightarrow> vin a = None \<and> plate a = None \<and> vinValid a = None
     | Vin_info \<Rightarrow> nhtsa a = None \<and> facts a = None
     | Web_search \<Rightarrow> webHits a = None
     | Risks \<Rightarrow> risks a = None
     | Markers \<Rightarrow> markers a = None
     | Report \<Rightarrow> report a = None)"

definition step_kept :: "aggregate option \<Rightarrow> stage \<times> patch \<times> state \<Rightarrow> bool" where
  "step_kept final x =
    (opt_agg_le (p_aggregates (fst (snd x))) final \<and> opt_agg_le (aggregates (snd (snd x))) final)"

definition no_late_fields :: "stage \<times> patch \<times> state \<Rightarrow> bool" where
  "no_late_fields x =
    (case aggregates (snd (snd x)) of
       None \<Rightarrow> True
     | Some a \<Rightarrow> risks a = None \<and> markers a = None \<and> report a = None)"

subsection \<open>Collaborators of the examples\<close>

definition timeout_error :: error where
  "timeout_error = Error (js ''timeout of 20000ms exceeded'')"

definition decode_response :: json where
  "decode_response =
    JObj [(js ''Count'', JNum 1),
          (js ''Results'',
           JArr [JObj [(js ''Make'', JStr (js ''HONDA'')), (js ''Model'', JStr (js ''Accord'')),
                       (js ''Series'', JStr (js ''Fire''))]])]"

definition two_auction_results :: "tavily_result list" where
  "two_auction_results =
    [\<lparr>r_title = None, r_url = Some (js ''https://www.copart.com/x''), r_content = None\<rparr>,
     \<lparr>r_title = None, r_url = Some (js ''https://www.iaai.com/y''), r_content = None\<rparr>]"

definition good_env :: env where
  "good_env =
    \<lparr>axios_get = (\<lambda>u. Inr (Some decode_response)),
     TAVILY_API_KEY = Some (js ''key''),
     tv_search = (\<lambda>query. Inr (Some two_auction_results)),
     model_invoke = (\<lambda>d. Inr (js ''report text''))\<rparr>"

definition decode_down_env :: env where
  "decode_down_env = good_env\<lparr>axios_get := (\<lambda>u. Inl timeout_error)\<rparr>"

definition search_down_env :: env where
  "search_down_env = good_env\<lparr>tv_search := (\<lambda>query. Inl timeout_error)\<rparr>"

subsection \<open>Risk evaluation as the specification words it\<close>

text \<open>
  The decoded facts as an object (\<open>undefined\<close> fields are left out by the serialization),
  and the text the specification describes: the web hits and the facts.
\<close>

definition opt_json_field :: "string \<Rightarrow> json option \<Rightarrow> (jsstring \<times> json) list" where
  "opt_json_field k v = (case v of None \<Rightarrow> [] | Some x \<Rightarrow> [(js k, x)])"

definition facts_json :: "vehicle_facts \<Rightarrow> json" where
  "facts_json f =
    JObj (opt_json_field ''Make'' (Make f) @ opt_json_field ''Model'' (Model f) @
          opt_json_field ''ModelYear'' (ModelYear f) @ opt_json_field ''BodyClass'' (BodyClass f) @
          opt_json_field ''VehicleType'' (VehicleType f) @
          opt_json_field ''PlantCountry'' (PlantCountry f))"

definition facts_risk_text :: "aggregate \<Rightarrow> jsstring" where
  "facts_risk_text a =
    stringify (JArr (map hit_json (hits_of a))) @ js '' '' @
    stringify (case facts a of None \<Rightarrow> JObj [] | Some f \<Rightarrow> facts_json f)"

text \<open>The aggregate after the decode of \<open>decode_response\<close>, with no web hits.\<close>

definition decoded_aggregate :: aggregate where
  "decoded_aggregate =
    empty_aggregate
      \<lparr>vin := Some reference_vin, vinValid := Some True, nhtsa := Some decode_response,
       facts := Some \<lparr>Make = Some (JStr (js ''HONDA'')), Model = Some (JStr (js ''Accord'')),
                      ModelYear = None, BodyClass = None, VehicleType = None,
                      PlantCountry = None\<rparr>\<rparr>"

text \<open>The same aggregate with two risk labels.\<close>

definition risky_aggregate :: aggregate where
  "risky_aggregate = decoded_aggregate\<lparr>risks := Some [js ''fire'', js ''hail'']\<rparr>"

text \<open>
  The host of a link, for the reading "the link host matches": what stands between
  \<open>://\<close> and the next \<open>/\<close>.
\<close>

fun drop_scheme :: "jsstring \<Rightarrow> jsstring" where
  "drop_scheme (a # b # c # rest) =
    (if [a, b, c] = js ''://'' then rest else drop_scheme (b # c # rest))"
| "drop_scheme s = []"

definition link_host :: "jsstring \<Rightarrow> jsstring" where
  "link_host l = takeWhile (\<lambda>c. c \<noteq> cu CHR ''/'') (drop_scheme l)"

definition host_auctionCount :: "aggregate \<Rightarrow> nat" where
  "host_auctionCount a =
    length (filter (\<lambda>h. AUCTION_RE (link_host (case link h of None \<Rightarrow> [] | Some l \<Rightarrow> l)))
              (hits_of a))"

definition hit_with_link :: "string \<Rightarrow> webhit" where
  "hit_with_link l = \<lparr>title = None, link = Some (js l), snippet = None\<rparr>"

definition path_auction_aggregate :: aggregate where
  "path_auction_aggregate =
    empty_aggregate
      \<lparr>webHits := Some [hit_with_link ''https://example.com/auction/1'',
                        hit_with_link ''https://example.com/auction/2'']\<rparr>"

definition two_auction_aggregate :: aggregate where
  "two_auction_aggregate =
    empty_aggregate
      \<lparr>webHits := Some [hit_with_link ''https://www.copart.com/x'',
                        hit_with_link ''https://www.iaai.com/y'']\<rparr>"

text \<open>A substring, said without the search.\<close>

definition substring :: "jsstring \<Rightarrow> jsstring \<Rightarrow> bool" where
  "substring kw t = (\<exists>p s. t = p @ kw @ s)"

text \<open>The state the decode stage receives: the initial state after \<open>normalize\<close>.\<close>

definition after_normalize :: "jsstring \<Rightarrow> state" where
  "after_normalize q =
    (case nodeNormalize (initial_state q) of
       Inl err \<Rightarrow> initial_state q
     | Inr p \<Rightarrow> apply_patch (initial_state q) p)"

section \<open>The character classes are the alphabets\<close>

lemma vin_class_table: "list_all (\<lambda>c. vin_class c = (c \<in> vin_alphabet)) [0..<128]"
  by code_simp

lemma vin_alphabet_ascii: "list_all (\<lambda>d. d < 128) (js ''ABCDEFGHJKLMNPRSTUVWXYZ0123456789'')"
  by code_simp

lemma vin_class_iff: "vin_class c \<longleftrightarrow> c \<in> vin_alphabet"
proof (cases "c < 128")
  case True
  then have "c \<in> set [0..<128]" by simp
  with vin_class_table show ?thesis unfolding list_all_iff by blast
next
  case False
  then have "\<not> vin_class c" by (simp add: vin_class_def between_def cu_def)
  moreover have "c \<notin> vin_alphabet"
    using vin_alphabet_ascii False unfolding vin_alphabet_def list_all_iff by blast
  ultimately show ?thesis by simp
qed

lemma alnum_class_table: "list_all (\<lambda>c. alnum_class c = (c \<in> alnum_alphabet)) [0..<128]"
  by code_simp

lemma alnum_alphabet_ascii:
  "list_all (\<lambda>d. d < 128) (js ''ABCDEFGHIJKLMNOPQRSTUVWXYZabcdefghijklmnopqrstuvwxyz0123456789'')"
  by code_simp

lemma alnum_class_iff: "alnum_class c \<longleftrightarrow> c \<in> alnum_alphabet"
proof (cases "c < 128")
  case True
  then have "c \<in> set [0..<128]" by simp
  with alnum_class_table show ?thesis unfolding list_all_iff by blast
next
  case False
  then have "\<not> alnum_class c" by (simp add: alnum_class_def between_def cu_def)
  moreover have "c \<notin> alnum_alphabet"
    using alnum_alphabet_ascii False unfolding alnum_alphabet_def list_all_iff by blast
  ultimately show ?thesis by simp
qed

lemma upper_alnum_table: "list_all (\<lambda>c. upper_alnum c = (c \<in> latin_plate_alphabet)) [0..<128]"
  by code_simp

lemma latin_plate_alphabet_ascii:
  "list_all (\<lambda>d. d < 128) (js ''ABCDEFGHIJKLMNOPQRSTUVWXYZ0123456789'')"
  by code_simp

lemma upper_alnum_iff: "upper_alnum c \<longleftrightarrow> c \<in> latin_plate_alphabet"
proof (cases "c < 128")
  case True
  then have "c \<in> set [0..<128]" by simp
  with upper_alnum_table show ?thesis unfolding list_all_iff by blast
next
  case False
  then have "\<not> upper_alnum c" by (simp add: upper_alnum_def between_def cu_def)
  moreover have "c \<notin> latin_plate_alphabet"
    using latin_plate_alphabet_ascii False unfolding latin_plate_alphabet_def list_all_iff by blast
  ultimately show ?thesis by simp
qed

lemma plate_class_iff: "plate_class c \<longleftrightarrow> c \<in> latin_plate_alphabet \<union> cyrillic_plate_alphabet"
proof -
  have "plate_class c \<longleftrightarrow> upper_alnum c \<or> c \<in> cyrillic_plate_alphabet"
    by (auto simp: plate_class_def upper_alnum_def cyrillic_plate_alphabet_def)
  then show ?thesis by (simp add: upper_alnum_iff)
qed

lemma VIN_RE_iff: "VIN_RE v \<longleftrightarrow> length v = 17 \<and> set v \<subseteq> vin_alphabet"
  by (auto simp: VIN_RE_def list_all_iff vin_class_iff)

lemma PLATE_RE_iff:
  "PLATE_RE v \<longleftrightarrow>
   5 \<le> length v \<and> length v \<le> 10 \<and> set v \<subseteq> latin_plate_alphabet \<union> cyrillic_plate_alphabet"
  by (auto simp: PLATE_RE_def list_all_iff plate_class_iff)

section \<open>The checksum\<close>

lemma translit_table: "list_all (\<lambda>c. translit c \<noteq> None) (js ''ABCDEFGHJKLMNPRSTUVWXYZ0123456789'')"
  by code_simp

lemma translit_defined: "c \<in> vin_alphabet \<Longrightarrow> translit c \<noteq> None"
  using translit_table unfolding vin_alphabet_def list_all_iff by blast

lemma translit_or_0_the: "c \<in> vin_alphabet \<Longrightarrow> translit_or_0 c = the (translit c)"
  using translit_defined [of c] by (auto simp: translit_or_0_def)

lemma reduce_sum_eq:
  "i + length cs \<le> 17 \<Longrightarrow>
   reduce_sum (Some a) i cs =
   Some (a + (\<Sum>k<length cs. translit_or_0 (cs ! k) * weights ! (i + k)))"
proof (induction cs arbitrary: a i)
  case Nil
  then show ?case by simp
next
  case (Cons c cs)
  then have i: "i < 17" and rest: "Suc i + length cs \<le> 17" by simp_all
  have w: "weight_at i = Some (weights ! i)" using i by (simp add: weight_at_def weights_def)
  show ?case
    using Cons.IH [OF rest, of "a + translit_or_0 c * weights ! i"]
    by (simp add: w sum.lessThan_Suc_shift add.assoc del: sum.lessThan_Suc)
qed

lemma String_nat_digit: "n < 10 \<Longrightarrow> String_nat n = [cu CHR ''0'' + n]"
  by (simp add: String_nat.simps)

lemma vinChecksumValid_eq:
  assumes len: "length v = 17" and alpha: "set v \<subseteq> vin_alphabet"
  shows "vinChecksumValid v \<longleftrightarrow> v ! 8 = iso3779_check v"
proof -
  have re: "VIN_RE v" using assms by (simp add: VIN_RE_iff)
  have "\<And>k. k < 17 \<Longrightarrow> translit_or_0 (v ! k) = the (translit (v ! k))"
    using len alpha by (intro translit_or_0_the) (auto simp: subset_iff)
  then have s: "reduce_sum (Some 0) 0 v = Some (\<Sum>k<17. the (translit (v ! k)) * weights ! k)"
    using reduce_sum_eq [of 0 v 0] len by simp
  define r where "r = iso3779_remainder v"
  have r11: "r < 11" unfolding r_def iso3779_remainder_def by simp
  have "r \<noteq> 10 \<Longrightarrow> String_nat r = [cu CHR ''0'' + r]"
    using r11 by (intro String_nat_digit) simp
  then show ?thesis
    using re s len
    by (auto simp: vinChecksumValid_def char_at_def Let_def iso3779_check_def
        iso3779_remainder_def r_def js_def)
qed

lemma reference_vin_alphabet: "set reference_vin \<subseteq> vin_alphabet"
proof -
  have "list_all (\<lambda>d. d \<in> vin_alphabet) reference_vin" by code_simp
  then show ?thesis unfolding list_all_iff by blast
qed

lemma reference_vin_valid: "vinChecksumValid reference_vin"
  by code_simp

lemma reference_vin_flipped:
  assumes ne: "c \<noteq> reference_vin ! 8"
  shows "\<not> vinChecksumValid (reference_vin[8 := c])"
proof (cases "c \<in> vin_alphabet")
  case False
  then have "\<not> VIN_RE (reference_vin[8 := c])"
    unfolding VIN_RE_iff by (auto simp: reference_vin_def js_def)
  then show ?thesis by (simp add: vinChecksumValid_def)
next
  case True
  let ?v = "reference_vin[8 := c]"
  have l: "length ?v = 17" by (simp add: reference_vin_def js_def)
  from True have a: "set ?v \<subseteq> vin_alphabet"
    using reference_vin_alphabet set_update_subset_insert [of reference_vin 8 c] by blast
  have "iso3779_check ?v = cu CHR ''3''"
    by (simp add: iso3779_check_def iso3779_remainder_def reference_vin_def js_def weights_def
      lessThan_nat_numeral lessThan_Suc translit_def cu_def)
  moreover have "reference_vin ! 8 = cu CHR ''3''" by (simp add: reference_vin_def js_def)
  ultimately show ?thesis using vinChecksumValid_eq [OF l a] ne by (simp add: reference_vin_def js_def)
qed

text \<open>
  Claim C1. On every 17-character string over the VIN alphabet the table has an entry for
  each character and \<open>vinChecksumValid\<close> is true exactly when the character at index 8
  is the ISO 3779 check character: \<open>X\<close> for the remainder 10, the digit of the
  remainder otherwise, the remainder being the weighted sum of the transliterated
  characters modulo 11. The weight vector has 17 entries and weight 0 at position 8. The
  reference VIN 1HGCM82633A004352 is valid, and with any other character in place of its
  check character it is not.
\<close>

theorem vinChecksumValid_iso3779:
  "(length v = 17 \<and> set v \<subseteq> vin_alphabet \<longrightarrow>
      (\<forall>c\<in>set v. translit c \<noteq> None) \<and>
      (vinChecksumValid v \<longleftrightarrow> v ! 8 = iso3779_check v)) \<and>
   length weights = 17 \<and> weights ! 8 = 0 \<and>
   vinChecksumValid reference_vin \<and>
   (\<forall>c. c \<noteq> reference_vin ! 8 \<longrightarrow> \<not> vinChecksumValid (reference_vin[8 := c]))"
proof -
  have "length weights = 17" "weights ! 8 = 0" by (simp_all add: weights_def)
  then show ?thesis
    using vinChecksumValid_eq [of v] reference_vin_valid reference_vin_flipped
    by (auto dest: translit_defined)
qed

theorem vinChecksumValid_iso3779_witness:
  "length reference_vin = 17 \<and> set reference_vin \<subseteq> vin_alphabet \<and>
   vinChecksumValid reference_vin \<and> reference_vin ! 8 = iso3779_check reference_vin \<and>
   iso3779_remainder reference_vin = 3 \<and>
   cu CHR ''X'' \<noteq> reference_vin ! 8 \<and> \<not> vinChecksumValid (js ''1HGCM826X3A004352'')"
proof -
  have l: "length reference_vin = 17" by (simp add: reference_vin_def js_def)
  have x: "cu CHR ''X'' \<noteq> reference_vin ! 8" by (simp add: reference_vin_def js_def cu_def)
  have u: "reference_vin[8 := cu CHR ''X''] = js ''1HGCM826X3A004352''"
    by (simp add: reference_vin_def js_def)
  have r: "iso3779_remainder reference_vin = 3"
    by (simp add: iso3779_remainder_def reference_vin_def js_def weights_def
      lessThan_nat_numeral lessThan_Suc translit_def cu_def)
  show ?thesis
    using vinChecksumValid_iso3779 [of reference_vin] l x u r reference_vin_alphabet
    by auto
qed

text \<open>
  Claim C2. A string that is not exactly 17 characters of the VIN alphabet is rejected by
  \<open>vinChecksumValid\<close>; so is, in particular, every string that contains one of the
  letters I, O and Q.
\<close>

theorem vinChecksumValid_rejects:
  "(length v \<noteq> 17 \<or> \<not> set v \<subseteq> vin_alphabet \<longrightarrow> \<not> vinChecksumValid v) \<and>
   (cu CHR ''I'' \<in> set v \<or> cu CHR ''O'' \<in> set v \<or> cu CHR ''Q'' \<in> set v \<longrightarrow> \<not> vinChecksumValid v)"
proof -
  have "cu CHR ''I'' \<notin> vin_alphabet" "cu CHR ''O'' \<notin> vin_alphabet" "cu CHR ''Q'' \<notin> vin_alphabet"
    by (simp_all add: vin_alphabet_def js_def cu_def)
  then show ?thesis
    by (auto simp: vinChecksumValid_def VIN_RE_iff)
qed

theorem vinChecksumValid_rejects_witness:
  "length (js ''1HGCM82633A00435'') \<noteq> 17 \<and> \<not> vinChecksumValid (js ''1HGCM82633A00435'') \<and>
   length (js ''1HGCM82633A0043522'') \<noteq> 17 \<and> \<not> vinChecksumValid (js ''1HGCM82633A0043522'') \<and>
   cu CHR ''I'' \<in> set (js ''IHGCM82633A004352'') \<and> \<not> vinChecksumValid (js ''IHGCM82633A004352'') \<and>
   cu CHR ''O'' \<in> set (js ''1HGCM82633AOO4352'') \<and> \<not> vinChecksumValid (js ''1HGCM82633AOO4352'') \<and>
   cu CHR ''Q'' \<in> set (js ''1HGQM82633A004352'') \<and> \<not> vinChecksumValid (js ''1HGQM82633A004352'')"
proof -
  have 1: "length (js ''1HGCM82633A00435'') \<noteq> 17" by (simp add: js_def)
  have 2: "length (js ''1HGCM82633A0043522'') \<noteq> 17" by (simp add: js_def)
  have 3: "cu CHR ''I'' \<in> set (js ''IHGCM82633A004352'')" by (simp add: js_def)
  have 4: "cu CHR ''O'' \<in> set (js ''1HGCM82633AOO4352'')" by (simp add: js_def)
  have 5: "cu CHR ''Q'' \<in> set (js ''1HGQM82633A004352'')" by (simp add: js_def)
  show ?thesis
    using vinChecksumValid_rejects [of "js ''1HGCM82633A00435''"]
      vinChecksumValid_rejects [of "js ''1HGCM82633A0043522''"]
      vinChecksumValid_rejects [of "js ''IHGCM82633A004352''"]
      vinChecksumValid_rejects [of "js ''1HGCM82633AOO4352''"]
      vinChecksumValid_rejects [of "js ''1HGQM82633A004352''"]
      1 2 3 4 5
    by blast
qed


section \<open>The normalizer\<close>

lemmas normalize_eval =
  normalizeQuery_def trim_def is_space_def toUpperCase_def upper_unit_def special_upper_def
  replace_NON_ALNUM_def alnum_class_def between_def cu_def js_def isLikelyVIN_def VIN_RE_def
  PLATE_RE_def vin_class_def plate_class_def vinChecksumValid_def weight_at_def weights_def
  translit_or_0_def translit_def char_at_def String_nat.simps reference_vin_def

lemma normalizeQuery_classify: "normalizeQuery q = classify (cleaned q)"
  by (simp add: normalizeQuery_def classify_def cleaned_def Let_def)

lemma value_classify: "value (classify v) = v"
  by (simp add: classify_def)

lemma cleaned_filter: "cleaned q = filter (\<lambda>c. c \<in> alnum_alphabet) (toUpperCase (trim q))"
proof -
  have "alnum_class = (\<lambda>c. c \<in> alnum_alphabet)" by (simp add: fun_eq_iff alnum_class_iff)
  then show ?thesis by (simp add: cleaned_def replace_NON_ALNUM_def)
qed

lemma special_upper_table:
  "list_all (\<lambda>kv. 128 \<le> fst kv \<and> \<not> cyrillic (fst kv) \<and> \<not> is_space (fst kv) \<and>
      list_all (\<lambda>u. \<not> between CHR ''a'' CHR ''z'' u) (snd kv)) special_upper"
  by (simp add: special_upper_def is_space_def cyrillic_def between_def cu_def js_def)

lemma special_upper_SomeD:
  assumes "map_of special_upper c = Some us"
  shows "128 \<le> c" and "\<not> cyrillic c" and "\<not> is_space c"
    and "\<forall>u\<in>set us. \<not> between CHR ''a'' CHR ''z'' u"
proof -
  from assms have "(c, us) \<in> set special_upper" by (rule map_of_SomeD)
  with special_upper_table
  have "128 \<le> c \<and> \<not> cyrillic c \<and> \<not> is_space c \<and> list_all (\<lambda>u. \<not> between CHR ''a'' CHR ''z'' u) us"
    unfolding list_all_iff by fastforce
  then show "128 \<le> c" and "\<not> cyrillic c" and "\<not> is_space c"
    and "\<forall>u\<in>set us. \<not> between CHR ''a'' CHR ''z'' u"
    by (simp_all add: list_all_iff)
qed

lemma upper_unit_no_lower: "u \<in> set (upper_unit c) \<Longrightarrow> \<not> between CHR ''a'' CHR ''z'' u"
  by (auto simp: upper_unit_def between_def cu_def split: if_splits option.splits
      dest!: special_upper_SomeD(4))

lemma toUpperCase_no_lower: "u \<in> set (toUpperCase s) \<Longrightarrow> \<not> between CHR ''a'' CHR ''z'' u"
  by (auto simp: toUpperCase_def dest: upper_unit_no_lower)

lemma cleaned_upper_alnum: "list_all upper_alnum (cleaned q)"
  by (auto simp: cleaned_def replace_NON_ALNUM_def list_all_iff upper_alnum_def alnum_class_def
      dest: toUpperCase_no_lower)

lemma upper_alnum_not_space: "upper_alnum c \<Longrightarrow> \<not> is_space c"
  by (auto simp: upper_alnum_def is_space_def between_def cu_def)

lemma trim_id:
  assumes a: "list_all upper_alnum v"
  shows "trim v = v"
proof -
  from a have 1: "dropWhile is_space v = v"
    by (cases v) (auto dest: upper_alnum_not_space)
  from a have "list_all upper_alnum (rev v)" by (simp add: list_all_iff)
  then have 2: "dropWhile is_space (rev v) = rev v"
    by (cases "rev v") (auto dest: upper_alnum_not_space)
  show ?thesis by (simp add: trim_def 1 2)
qed

lemma upper_unit_id:
  assumes a: "upper_alnum c"
  shows "upper_unit c = [c]"
proof -
  from a have lt: "c < 128" by (auto simp: upper_alnum_def between_def cu_def)
  have "map_of special_upper c = None"
  proof (cases "map_of special_upper c")
    case (Some us)
    from special_upper_SomeD(1) [OF Some] lt show ?thesis by simp
  qed simp
  with a lt show ?thesis
    by (auto simp: upper_unit_def upper_alnum_def between_def cu_def)
qed

lemma toUpperCase_id: "list_all upper_alnum v \<Longrightarrow> toUpperCase v = v"
  by (induction v) (simp_all add: toUpperCase_def upper_unit_id)

lemma replace_id: "list_all upper_alnum v \<Longrightarrow> replace_NON_ALNUM v = v"
  by (induction v) (auto simp: replace_NON_ALNUM_def upper_alnum_def alnum_class_def)

lemma cleaned_id: "list_all upper_alnum v \<Longrightarrow> cleaned v = v"
  by (simp add: cleaned_def trim_id toUpperCase_id replace_id)

lemma cleaned_idem: "cleaned (cleaned q) = cleaned q"
  by (rule cleaned_id) (rule cleaned_upper_alnum)

lemma plate_latin: "list_all upper_alnum v \<Longrightarrow> PLATE_RE v = LATIN_PLATE_RE v"
  by (auto simp: PLATE_RE_def LATIN_PLATE_RE_def list_all_iff upper_alnum_def plate_class_def)

subsection \<open>Trimming and Cyrillic letters leave no trace in the cleaned value\<close>

lemma strip_upper_append:
  "replace_NON_ALNUM (toUpperCase (xs @ ys)) =
   replace_NON_ALNUM (toUpperCase xs) @ replace_NON_ALNUM (toUpperCase ys)"
  by (simp add: replace_NON_ALNUM_def toUpperCase_def)

lemma space_facts: "is_space c \<Longrightarrow> \<not> alnum_class c \<and> \<not> cyrillic c"
  unfolding is_space_def alnum_class_def between_def cu_def cyrillic_def
  by (elim disjE rev_mp [of "c \<in> _"]) auto

lemma upper_unit_other:
  "\<not> alnum_class c \<Longrightarrow> \<not> cyrillic c \<Longrightarrow> map_of special_upper c = None \<Longrightarrow> upper_unit c = [c]"
  by (auto simp: upper_unit_def alnum_class_def cyrillic_def)

lemma space_stripped:
  assumes sp: "is_space c"
  shows "filter alnum_class (upper_unit c) = []"
proof -
  have n: "map_of special_upper c = None"
  proof (cases "map_of special_upper c")
    case (Some us)
    from special_upper_SomeD(3) [OF Some] sp show ?thesis by simp
  qed simp
  from space_facts [OF sp] n have "upper_unit c = [c]" by (intro upper_unit_other) simp_all
  with space_facts [OF sp] show ?thesis by simp
qed

lemma spaces_stripped: "list_all is_space ws \<Longrightarrow> replace_NON_ALNUM (toUpperCase ws) = []"
  by (induction ws) (simp_all add: replace_NON_ALNUM_def toUpperCase_def space_stripped)

lemma trim_decompose:
  "\<exists>l r. list_all is_space l \<and> list_all is_space r \<and> q = l @ trim q @ r"
proof -
  let ?d = "dropWhile is_space q"
  have 1: "q = takeWhile is_space q @ ?d" by simp
  have "rev (dropWhile is_space (rev ?d)) @ rev (takeWhile is_space (rev ?d)) = ?d"
    by (simp add: rev_append [symmetric] del: rev_append)
  then have 2: "?d = trim q @ rev (takeWhile is_space (rev ?d))"
    by (simp add: trim_def)
  have l: "list_all is_space (takeWhile is_space q)"
    by (auto simp: list_all_iff dest: set_takeWhileD)
  have r: "list_all is_space (rev (takeWhile is_space (rev ?d)))"
    by (auto simp: list_all_iff dest: set_takeWhileD)
  from 1 2 have "q = takeWhile is_space q @ trim q @ rev (takeWhile is_space (rev ?d))"
    by (metis append_assoc)
  with l r show ?thesis by blast
qed

lemma cleaned_without_trim: "cleaned q = replace_NON_ALNUM (toUpperCase q)"
proof -
  obtain l r where l: "list_all is_space l" and r: "list_all is_space r"
    and q: "q = l @ trim q @ r"
    using trim_decompose by blast
  have "replace_NON_ALNUM (toUpperCase q) = replace_NON_ALNUM (toUpperCase (l @ trim q @ r))"
    using q by simp
  also have "\<dots> = cleaned q"
    by (simp add: strip_upper_append spaces_stripped l r cleaned_def)
  finally show ?thesis by simp
qed

lemma cyrillic_stripped: "cyrillic c \<Longrightarrow> filter alnum_class (upper_unit c) = []"
proof -
  assume cy: "cyrillic c"
  have n: "map_of special_upper c = None"
  proof (cases "map_of special_upper c")
    case (Some us)
    from special_upper_SomeD(2) [OF Some] cy show ?thesis by simp
  qed simp
  from cy show ?thesis
    by (auto simp: upper_unit_def n alnum_class_def between_def cu_def cyrillic_def)
qed

lemma cleaned_drop_cyrillic: "cleaned (filter (\<lambda>c. \<not> cyrillic c) q) = cleaned q"
  unfolding cleaned_without_trim
  by (induction q) (simp_all add: replace_NON_ALNUM_def toUpperCase_def cyrillic_stripped)

text \<open>
  Claim C3. The value \<open>normalizeQuery\<close> returns is the input trimmed, upper-cased and
  with every character outside \<open>[A-Za-z0-9]\<close> removed. Its kind is VIN exactly when that
  value is 17 characters of the VIN alphabet and passes the checksum; otherwise PLATE
  exactly when it is 5 to 10 characters of the Latin capitals, the digits and the Cyrillic
  capitals of the plate pattern; otherwise UNKNOWN. The function is total, and on the
  empty input it returns kind UNKNOWN with value \<open>''\<close>.
\<close>

theorem normalizeQuery_classifies:
  "value (normalizeQuery q) = filter (\<lambda>c. c \<in> alnum_alphabet) (toUpperCase (trim q)) \<and>
   kind (normalizeQuery q) =
     (let v = value (normalizeQuery q)
      in if length v = 17 \<and> set v \<subseteq> vin_alphabet \<and> vinChecksumValid v then Vin
         else if 5 \<le> length v \<and> length v \<le> 10 \<and>
                 set v \<subseteq> latin_plate_alphabet \<union> cyrillic_plate_alphabet then Plate
         else Unknown) \<and>
   normalizeQuery [] = \<lparr>kind = Unknown, value = []\<rparr>"
proof -
  have e: "normalizeQuery [] = \<lparr>kind = Unknown, value = []\<rparr>"
    by (simp add: normalizeQuery_def trim_def toUpperCase_def replace_NON_ALNUM_def
        isLikelyVIN_def VIN_RE_def PLATE_RE_def)
  have v: "value (normalizeQuery q) = filter (\<lambda>c. c \<in> alnum_alphabet) (toUpperCase (trim q))"
    by (simp add: normalizeQuery_classify value_classify cleaned_filter)
  have k: "kind (normalizeQuery q) =
     (let v = value (normalizeQuery q)
      in if length v = 17 \<and> set v \<subseteq> vin_alphabet \<and> vinChecksumValid v then Vin
         else if 5 \<le> length v \<and> length v \<le> 10 \<and>
                 set v \<subseteq> latin_plate_alphabet \<union> cyrillic_plate_alphabet then Plate
         else Unknown)"
    by (simp add: normalizeQuery_classify classify_def isLikelyVIN_def VIN_RE_iff PLATE_RE_iff
        Let_def)
  from v k e show ?thesis by blast
qed

theorem normalizeQuery_classifies_witness:
  "normalizeQuery (js '' 1hgcm-82633 a004352 '') = \<lparr>kind = Vin, value = reference_vin\<rparr> \<and>
   normalizeQuery (js ''ab 1234-cd'') = \<lparr>kind = Plate, value = js ''AB1234CD''\<rparr> \<and>
   normalizeQuery (js ''WVWZZZ1JZXW000001'') = \<lparr>kind = Unknown, value = js ''WVWZZZ1JZXW000001''\<rparr> \<and>
   normalizeQuery [] = \<lparr>kind = Unknown, value = []\<rparr>"
proof -
  have 1: "normalizeQuery (js '' 1hgcm-82633 a004352 '') = \<lparr>kind = Vin, value = reference_vin\<rparr>"
    by (simp add: normalize_eval)
  have 2: "normalizeQuery (js ''ab 1234-cd'') = \<lparr>kind = Plate, value = js ''AB1234CD''\<rparr>"
    by (simp add: normalize_eval)
  have 3: "normalizeQuery (js ''WVWZZZ1JZXW000001'') = \<lparr>kind = Unknown, value = js ''WVWZZZ1JZXW000001''\<rparr>"
    by (simp add: normalize_eval)
  show ?thesis using normalizeQuery_classifies [of "[]"] 1 2 3 by simp
qed

text \<open>
  Claim C4. The normalizer is idempotent: normalizing the value of a normalized input gives
  the same kind and the same value, for every input.
\<close>

theorem normalizeQuery_idempotent:
  "normalizeQuery (value (normalizeQuery x)) = normalizeQuery x"
  by (simp add: normalizeQuery_classify value_classify cleaned_idem)

text \<open>
  Claim C10. The cleaned value holds Latin capitals and digits only, none of the Cyrillic
  letters of the plate pattern, so that pattern accepts it exactly when its Latin part
  \<open>/^[A-Z0-9]{5,10}$/\<close> does. An input is classified as the same input without its
  Cyrillic letters is, and the kind is UNKNOWN whenever fewer than 5 characters remain.
\<close>

theorem cyrillic_never_matches:
  "set (value (normalizeQuery q)) \<subseteq> latin_plate_alphabet \<and>
   set (value (normalizeQuery q)) \<inter> cyrillic_plate_alphabet = {} \<and>
   PLATE_RE (value (normalizeQuery q)) = LATIN_PLATE_RE (value (normalizeQuery q)) \<and>
   normalizeQuery (filter (\<lambda>c. \<not> cyrillic c) q) = normalizeQuery q \<and>
   (length (value (normalizeQuery q)) < 5 \<longrightarrow> kind (normalizeQuery q) = Unknown)"
proof -
  let ?v = "value (normalizeQuery q)"
  have v: "?v = cleaned q" by (simp add: normalizeQuery_classify value_classify)
  have ua: "list_all upper_alnum ?v" unfolding v by (rule cleaned_upper_alnum)
  then have 1: "set ?v \<subseteq> latin_plate_alphabet"
    by (auto simp: list_all_iff upper_alnum_iff)
  have "\<And>c. upper_alnum c \<Longrightarrow> c \<notin> cyrillic_plate_alphabet"
    by (auto simp: upper_alnum_def between_def cu_def cyrillic_plate_alphabet_def)
  with ua have 2: "set ?v \<inter> cyrillic_plate_alphabet = {}"
    by (auto simp: list_all_iff)
  have 3: "PLATE_RE ?v = LATIN_PLATE_RE ?v" using ua by (rule plate_latin)
  have 4: "normalizeQuery (filter (\<lambda>c. \<not> cyrillic c) q) = normalizeQuery q"
    by (simp add: normalizeQuery_classify cleaned_drop_cyrillic)
  have 5: "length ?v < 5 \<longrightarrow> kind (normalizeQuery q) = Unknown"
    by (simp add: normalizeQuery_classify classify_def isLikelyVIN_def VIN_RE_def PLATE_RE_def)
  from 1 2 3 4 5 show ?thesis by blast
qed

theorem cyrillic_never_matches_witness:
  "length (value (normalizeQuery cyrillic_plate)) < 5 \<and>
   normalizeQuery cyrillic_plate = \<lparr>kind = Unknown, value = js ''1234''\<rparr> \<and>
   normalizeQuery (filter (\<lambda>c. \<not> cyrillic c) cyrillic_plate) = normalizeQuery cyrillic_plate"
proof -
  have n: "normalizeQuery cyrillic_plate = \<lparr>kind = Unknown, value = js ''1234''\<rparr>"
    by (simp add: normalize_eval cyrillic_plate_def)
  then have l: "length (value (normalizeQuery cyrillic_plate)) < 5" by (simp add: js_def)
  show ?thesis using cyrillic_never_matches [of cyrillic_plate] n l by simp
qed


section \<open>The pipeline accumulates\<close>

lemma keeps_refl: "keeps x x"
  by (simp add: keeps_def split: option.splits)

lemma keeps_trans: "keeps x y \<Longrightarrow> keeps y z \<Longrightarrow> keeps x z"
  by (auto simp: keeps_def split: option.splits)

lemma keeps_None: "keeps None y"
  by (simp add: keeps_def)

lemma agg_le_refl: "agg_le a a"
  by (simp add: agg_le_def keeps_refl)

lemma agg_le_trans: "agg_le a b \<Longrightarrow> agg_le b c \<Longrightarrow> agg_le a c"
  unfolding agg_le_def by (blast intro: keeps_trans)

lemma opt_agg_le_trans: "opt_agg_le x (Some b) \<Longrightarrow> agg_le b c \<Longrightarrow> opt_agg_le x (Some c)"
  by (auto simp: opt_agg_le_def split: option.splits intro: agg_le_trans)

lemma step_vin_info:
  assumes "nodeVinInfo e st = Inr p" and "aggregates st = Some a" and "unset a Vin_info"
  shows "\<exists>a'. aggregates (apply_patch st p) = Some a' \<and> agg_le a a' \<and>
           opt_agg_le (p_aggregates p) (Some a') \<and>
           (\<forall>t. t \<noteq> Vin_info \<longrightarrow> unset a t \<longrightarrow> unset a' t)"
  using assms
  by (auto simp: nodeVinInfo_def apply_patch_def empty_patch_def agg_le_def keeps_refl keeps_None
      opt_agg_le_def unset_def Let_def split: option.splits if_splits sum.splits stage.splits)

lemma step_web_search:
  assumes "nodeWebSearch e st = Inr p" and "aggregates st = Some a" and "unset a Web_search"
  shows "\<exists>a'. aggregates (apply_patch st p) = Some a' \<and> agg_le a a' \<and>
           opt_agg_le (p_aggregates p) (Some a') \<and>
           (\<forall>t. t \<noteq> Web_search \<longrightarrow> unset a t \<longrightarrow> unset a' t)"
  using assms
  by (auto simp: nodeWebSearch_def apply_patch_def agg_le_def keeps_refl keeps_None
      opt_agg_le_def unset_def Let_def split: option.splits if_splits sum.splits stage.splits)

lemma step_risks:
  assumes "nodeRisks st = Inr p" and "aggregates st = Some a" and "unset a Risks"
  shows "\<exists>a'. aggregates (apply_patch st p) = Some a' \<and> agg_le a a' \<and>
           opt_agg_le (p_aggregates p) (Some a') \<and>
           (\<forall>t. t \<noteq> Risks \<longrightarrow> unset a t \<longrightarrow> unset a' t)"
  using assms
  by (auto simp: nodeRisks_def apply_patch_def agg_le_def keeps_refl keeps_None
      opt_agg_le_def unset_def split: option.splits stage.splits)

lemma step_markers:
  assumes "nodeMarkers st = Inr p" and "aggregates st = Some a" and "unset a Markers"
  shows "\<exists>a'. aggregates (apply_patch st p) = Some a' \<and> agg_le a a' \<and>
           opt_agg_le (p_aggregates p) (Some a') \<and>
           (\<forall>t. t \<noteq> Markers \<longrightarrow> unset a t \<longrightarrow> unset a' t)"
  using assms
  by (auto simp: nodeMarkers_def apply_patch_def agg_le_def keeps_refl keeps_None
      opt_agg_le_def unset_def split: option.splits stage.splits)

lemma step_report:
  assumes "nodeReport e st = Inr p" and "aggregates st = Some a" and "unset a Report"
  shows "\<exists>a'. aggregates (apply_patch st p) = Some a' \<and> agg_le a a' \<and>
           opt_agg_le (p_aggregates p) (Some a') \<and>
           (\<forall>t. t \<noteq> Report \<longrightarrow> unset a t \<longrightarrow> unset a' t)"
  using assms
  by (auto simp: nodeReport_def apply_patch_def agg_le_def keeps_refl keeps_None
      opt_agg_le_def unset_def split: option.splits sum.splits stage.splits)

lemma node_step:
  assumes "node e s st = Inr p" and "aggregates st = Some a" and "s \<noteq> Normalize"
    and "unset a s"
  shows "\<exists>a'. aggregates (apply_patch st p) = Some a' \<and> agg_le a a' \<and>
           opt_agg_le (p_aggregates p) (Some a') \<and>
           (\<forall>t. t \<noteq> s \<longrightarrow> unset a t \<longrightarrow> unset a' t)"
proof (cases s)
  case Normalize
  with assms(3) show ?thesis by simp
next
  case Vin_info
  with assms show ?thesis using step_vin_info [of e st p a] by (simp add: node_def)
next
  case Web_search
  with assms show ?thesis using step_web_search [of e st p a] by (simp add: node_def)
next
  case Risks
  with assms show ?thesis using step_risks [of st p a] by (simp add: node_def)
next
  case Markers
  with assms show ?thesis using step_markers [of st p a] by (simp add: node_def)
next
  case Report
  with assms show ?thesis using step_report [of e st p a] by (simp add: node_def)
qed

lemma run_stages_Cons_Inr:
  assumes "snd (run_stages e (s # ss) st) = Inr final"
  obtains p where "node e s st = Inr p"
    and "snd (run_stages e ss (apply_patch st p)) = Inr final"
    and "fst (run_stages e (s # ss) st) =
         (s, p, apply_patch st p) # fst (run_stages e ss (apply_patch st p))"
  using assms by (auto simp: Let_def split: sum.splits)

lemma run_stages_mono:
  assumes "snd (run_stages e ss st) = Inr final" and "aggregates st = Some a"
    and "Normalize \<notin> set ss" and "distinct ss" and "\<forall>s\<in>set ss. unset a s"
  shows "\<exists>af. aggregates final = Some af \<and> agg_le a af \<and>
           list_all (step_kept (Some af)) (fst (run_stages e ss st)) \<and>
           map fst (fst (run_stages e ss st)) = ss"
  using assms
proof (induction ss arbitrary: st a)
  case Nil
  then show ?case by (simp add: agg_le_refl)
next
  case (Cons s ss)
  from Cons.prems(1) obtain p where n: "node e s st = Inr p"
    and r: "snd (run_stages e ss (apply_patch st p)) = Inr final"
    and t: "fst (run_stages e (s # ss) st) =
            (s, p, apply_patch st p) # fst (run_stages e ss (apply_patch st p))"
    by (rule run_stages_Cons_Inr)
  from Cons.prems have sn: "s \<noteq> Normalize" and us: "unset a s" by auto
  from node_step [OF n Cons.prems(2) sn us] obtain a' where
    a': "aggregates (apply_patch st p) = Some a'" and le: "agg_le a a'"
    and pl: "opt_agg_le (p_aggregates p) (Some a')"
    and fr: "\<forall>t. t \<noteq> s \<longrightarrow> unset a t \<longrightarrow> unset a' t"
    by blast
  from Cons.prems fr have u': "\<forall>t\<in>set ss. unset a' t" by auto
  from Cons.prems have "Normalize \<notin> set ss" "distinct ss" by auto
  from Cons.IH [OF r a' this u'] obtain af where
    f: "aggregates final = Some af" and le': "agg_le a' af"
    and tr: "list_all (step_kept (Some af)) (fst (run_stages e ss (apply_patch st p)))"
    and nm: "map fst (fst (run_stages e ss (apply_patch st p))) = ss"
    by blast
  have hd: "step_kept (Some af) (s, p, apply_patch st p)"
    using opt_agg_le_trans [OF pl le'] le' a' by (simp add: step_kept_def opt_agg_le_def)
  from f le le' tr nm hd t show ?case
    by (auto intro: agg_le_trans)
qed

lemma run_stages_last:
  "snd (run_stages e ss st) = Inr final \<Longrightarrow> ss \<noteq> [] \<Longrightarrow>
   snd (snd (last (fst (run_stages e ss st)))) = final"
proof (induction ss arbitrary: st)
  case Nil
  then show ?case by simp
next
  case (Cons s ss)
  from Cons.prems(1) obtain p where n: "node e s st = Inr p"
    and r: "snd (run_stages e ss (apply_patch st p)) = Inr final"
    and t: "fst (run_stages e (s # ss) st) =
            (s, p, apply_patch st p) # fst (run_stages e ss (apply_patch st p))"
    by (rule run_stages_Cons_Inr)
  show ?case
  proof (cases ss)
    case Nil
    with r t show ?thesis by simp
  next
    case (Cons s' ss')
    then have ne: "ss \<noteq> []" by simp
    from r ne have "fst (run_stages e ss (apply_patch st p)) \<noteq> []"
      using Cons by (auto simp: Let_def split: sum.splits)
    with Cons.IH [OF r ne] t show ?thesis by simp
  qed
qed

lemma normalize_step:
  "\<exists>n a. nodeNormalize (initial_state q) = Inr \<lparr>p_norm = Some n, p_aggregates = Some a\<rparr> \<and>
     n = normalizeQuery q \<and>
     (\<forall>s. s \<noteq> Normalize \<longrightarrow> unset a s) \<and>
     vin a = (if kind n = Vin then Some (value n) else None) \<and>
     vinValid a = (if kind n = Vin then Some (vinChecksumValid (value n)) else None) \<and>
     plate a = (if kind n = Plate then Some (value n) else None)"
  by (auto simp: nodeNormalize_def initial_state_def empty_aggregate_def unset_def Let_def
      split: stage.splits)

text \<open>
  Claim C5. In a run in which all six stages complete, every field of the aggregate that
  a stage's patch holds, and every field the state holds after a stage, is in the final
  aggregate with the same value: no later stage removes or changes it. The final state is
  the state after the last patch.
\<close>

theorem merge_monotone:
  assumes "invoke e q = Inr final"
  shows "map fst (completed e q) = graph \<and>
         aggregates final \<noteq> None \<and>
         list_all (step_kept (aggregates final)) (completed e q) \<and>
         snd (snd (last (completed e q))) = final"
proof -
  obtain n a where nn: "nodeNormalize (initial_state q) = Inr \<lparr>p_norm = Some n, p_aggregates = Some a\<rparr>"
    and un: "\<forall>s. s \<noteq> Normalize \<longrightarrow> unset a s"
    using normalize_step [of q] by blast
  let ?p = "\<lparr>p_norm = Some n, p_aggregates = Some a\<rparr>"
  let ?st = "apply_patch (initial_state q) ?p"
  let ?rest = "[Vin_info, Web_search, Risks, Markers, Report]"
  have g: "graph = Normalize # ?rest" by (simp add: graph_def)
  have ag: "aggregates ?st = Some a" by (simp add: apply_patch_def)
  have r: "snd (run_stages e ?rest ?st) = Inr final"
    using assms nn unfolding invoke_def g by (simp add: node_def Let_def)
  have c: "completed e q = (Normalize, ?p, ?st) # fst (run_stages e ?rest ?st)"
    using nn unfolding completed_def g by (simp add: node_def Let_def)
  have "\<forall>s\<in>set ?rest. unset a s" using un by simp
  from run_stages_mono [OF r ag _ _ this] obtain af where
    f: "aggregates final = Some af" and le: "agg_le a af"
    and tr: "list_all (step_kept (Some af)) (fst (run_stages e ?rest ?st))"
    and nm: "map fst (fst (run_stages e ?rest ?st)) = ?rest"
    by auto
  have hd: "step_kept (Some af) (Normalize, ?p, ?st)"
    using le ag by (simp add: step_kept_def opt_agg_le_def)
  have l: "snd (snd (last (fst (run_stages e ?rest ?st)))) = final"
    using run_stages_last [OF r] by simp
  have ne: "fst (run_stages e ?rest ?st) \<noteq> []" using nm by auto
  show ?thesis using f tr nm hd l ne unfolding c g by simp
qed


section \<open>Runs of the examples\<close>

lemma normalize_reference_vin: "normalizeQuery reference_vin = \<lparr>kind = Vin, value = reference_vin\<rparr>"
proof -
  have "normalizeQuery (js ''1HGCM82633A004352'') = \<lparr>kind = Vin, value = js ''1HGCM82633A004352''\<rparr>"
    by (simp add: normalize_eval)
  then show ?thesis by (simp add: reference_vin_def)
qed

lemma reference_vin_nonempty: "reference_vin \<noteq> []"
  by (simp add: reference_vin_def js_def)

lemma after_normalize_reference:
  "after_normalize reference_vin =
   \<lparr>input = reference_vin, norm = Some \<lparr>kind = Vin, value = reference_vin\<rparr>,
    aggregates = Some (empty_aggregate\<lparr>vin := Some reference_vin,
                         vinValid := Some (vinChecksumValid reference_vin)\<rparr>)\<rparr>"
  by (simp add: after_normalize_def nodeNormalize_def initial_state_def apply_patch_def
      normalize_reference_vin Let_def)

lemma key_nonempty: "js ''key'' \<noteq> []"
  by (simp add: js_def)

lemma good_env_runs: "\<exists>final. invoke good_env reference_vin = Inr final"
  by (simp add: invoke_def graph_def node_def nodeNormalize_def nodeVinInfo_def nodeWebSearch_def
      nodeRisks_def nodeMarkers_def nodeReport_def webSearch_def nhtsaDecodeVin_def
      initial_state_def apply_patch_def good_env_def normalize_reference_vin
      reference_vin_nonempty key_nonempty empty_aggregate_def Let_def)

lemma decode_down_run:
  "run_stages decode_down_env graph (initial_state reference_vin) =
   ([(Normalize, \<lparr>p_norm = norm (after_normalize reference_vin),
                   p_aggregates = aggregates (after_normalize reference_vin)\<rparr>,
      after_normalize reference_vin)], Inl timeout_error)"
  by (simp add: after_normalize_reference graph_def node_def nodeNormalize_def nodeVinInfo_def
      nhtsaDecodeVin_def initial_state_def apply_patch_def good_env_def decode_down_env_def
      normalize_reference_vin reference_vin_nonempty empty_aggregate_def Let_def)

lemma search_down_run:
  "snd (run_stages search_down_env graph (initial_state reference_vin)) = Inl timeout_error \<and>
   map fst (fst (run_stages search_down_env graph (initial_state reference_vin))) =
     [Normalize, Vin_info]"
  by (simp add: graph_def node_def nodeNormalize_def nodeVinInfo_def nodeWebSearch_def
      webSearch_def nhtsaDecodeVin_def initial_state_def apply_patch_def good_env_def
      search_down_env_def normalize_reference_vin reference_vin_nonempty key_nonempty
      empty_aggregate_def Let_def)

theorem merge_monotone_witness:
  "\<exists>final. invoke good_env reference_vin = Inr final \<and>
     map fst (completed good_env reference_vin) = graph \<and>
     aggregates final \<noteq> None \<and>
     list_all (step_kept (aggregates final)) (completed good_env reference_vin) \<and>
     snd (snd (last (completed good_env reference_vin))) = final"
proof -
  from good_env_runs obtain final where f: "invoke good_env reference_vin = Inr final" ..
  from merge_monotone [OF f] f show ?thesis by blast
qed

section \<open>Failure of the decode stage\<close>

lemma VIN_RE_nonempty: "VIN_RE v \<Longrightarrow> v \<noteq> []"
  by (auto simp: VIN_RE_def)

lemma kind_Vin_nonempty: "kind (normalizeQuery q) = Vin \<Longrightarrow> value (normalizeQuery q) \<noteq> []"
  by (auto simp: normalizeQuery_def Let_def isLikelyVIN_def dest: VIN_RE_nonempty split: if_splits)

lemma after_normalize_eq:
  "after_normalize q =
   \<lparr>input = q, norm = Some (normalizeQuery q),
    aggregates = Some (empty_aggregate
      \<lparr>vin := (if kind (normalizeQuery q) = Vin then Some (value (normalizeQuery q)) else None),
       plate := (if kind (normalizeQuery q) = Plate then Some (value (normalizeQuery q)) else None),
       vinValid := (if kind (normalizeQuery q) = Vin
                    then Some (vinChecksumValid (value (normalizeQuery q))) else None)\<rparr>)\<rparr>"
  by (simp add: after_normalize_def nodeNormalize_def initial_state_def apply_patch_def
      empty_aggregate_def Let_def)

lemma vin_info_raises_iff:
  "nodeVinInfo e (after_normalize q) = Inl err \<longleftrightarrow>
   kind (normalizeQuery q) = Vin \<and> nhtsaDecodeVin e (value (normalizeQuery q)) = Inl err"
  using kind_Vin_nonempty [of q]
  by (auto simp: after_normalize_eq nodeVinInfo_def empty_aggregate_def Let_def
      split: sum.splits)

lemma run_after_normalize:
  "run_stages e graph (initial_state q) =
   (let st = after_normalize q;
        p = \<lparr>p_norm = norm st, p_aggregates = aggregates st\<rparr>;
        r = run_stages e [Vin_info, Web_search, Risks, Markers, Report] st
    in ((Normalize, p, st) # fst r, snd r))"
  by (simp add: graph_def node_def after_normalize_def nodeNormalize_def initial_state_def
      apply_patch_def Let_def)

lemma nhtsaDecodeVin_env:
  "nhtsaDecodeVin (e\<lparr>TAVILY_API_KEY := k, tv_search := ts, model_invoke := mi\<rparr>) v =
   nhtsaDecodeVin e v"
  by (simp add: nhtsaDecodeVin_def)

text \<open>
  Claim C6, as the code has it. When the decode stage raises, the run ends with that very
  error, the one the decode collaborator raised; only \<open>normalize\<close> has completed, the state
  reached holds no risks, markers or report, and whatever the search and the language
  model would answer changes nothing. The error is handed on as it is: nothing names the
  stage in it.
\<close>

theorem decode_failure_aborts:
  assumes "nodeVinInfo e (after_normalize q) = Inl err"
  shows "invoke e q = Inl err \<and>
         map fst (completed e q) = [Normalize] \<and>
         list_all no_late_fields (completed e q) \<and>
         nhtsaDecodeVin e (value (normalizeQuery q)) = Inl err \<and>
         (\<forall>k ts mi. invoke (e\<lparr>TAVILY_API_KEY := k, tv_search := ts, model_invoke := mi\<rparr>) q = Inl err)"
proof -
  from assms have k: "kind (normalizeQuery q) = Vin"
    and d: "nhtsaDecodeVin e (value (normalizeQuery q)) = Inl err"
    by (simp_all add: vin_info_raises_iff)
  have run: "\<And>e'. nodeVinInfo e' (after_normalize q) = Inl err \<Longrightarrow>
      run_stages e' graph (initial_state q) =
      ([(Normalize, \<lparr>p_norm = norm (after_normalize q), p_aggregates = aggregates (after_normalize q)\<rparr>,
         after_normalize q)], Inl err)"
    by (simp add: run_after_normalize node_def Let_def)
  have 1: "invoke e q = Inl err" using run [OF assms] by (simp add: invoke_def)
  have c: "completed e q =
      [(Normalize, \<lparr>p_norm = norm (after_normalize q), p_aggregates = aggregates (after_normalize q)\<rparr>,
        after_normalize q)]"
    using run [OF assms] by (simp add: completed_def)
  have 2: "map fst (completed e q) = [Normalize]" by (simp add: c)
  have 3: "list_all no_late_fields (completed e q)"
    by (simp add: c no_late_fields_def after_normalize_eq empty_aggregate_def)
  have 4: "invoke (e\<lparr>TAVILY_API_KEY := kk, tv_search := ts, model_invoke := mi\<rparr>) q = Inl err"
    for kk ts mi
  proof -
    have "nodeVinInfo (e\<lparr>TAVILY_API_KEY := kk, tv_search := ts, model_invoke := mi\<rparr>)
            (after_normalize q) = Inl err"
      using k d by (simp add: vin_info_raises_iff nhtsaDecodeVin_env)
    from run [OF this] show ?thesis by (simp add: invoke_def)
  qed
  from 1 2 3 4 d show ?thesis by blast
qed

theorem decode_failure_aborts_witness:
  "nodeVinInfo decode_down_env (after_normalize reference_vin) = Inl timeout_error \<and>
   invoke decode_down_env reference_vin = Inl timeout_error \<and>
   map fst (completed decode_down_env reference_vin) = [Normalize]"
proof -
  have "nodeVinInfo decode_down_env (after_normalize reference_vin) = Inl timeout_error"
    by (simp add: vin_info_raises_iff normalize_reference_vin nhtsaDecodeVin_def
        decode_down_env_def good_env_def)
  from decode_failure_aborts [OF this] this show ?thesis by blast
qed

text \<open>
  The claim says that the propagated error identifies the \<open>vin_info\<close> stage. The same
  error reaches the caller from a run that fails in \<open>vin_info\<close> and from a run that fails
  in \<open>web_search\<close>.
\<close>

theorem error_names_no_stage:
  "invoke decode_down_env reference_vin = Inl timeout_error \<and>
   map fst (completed decode_down_env reference_vin) = [Normalize] \<and>
   invoke search_down_env reference_vin = Inl timeout_error \<and>
   map fst (completed search_down_env reference_vin) = [Normalize, Vin_info]"
  using search_down_run by (simp add: invoke_def completed_def decode_down_run)


section \<open>The risk evaluator\<close>

lemma str_includes_substring: "str_includes t kw \<longleftrightarrow> substring kw t"
proof (induction t)
  case Nil
  then show ?case by (auto simp: substring_def)
next
  case (Cons c cs)
  have "substring kw (c # cs) \<longleftrightarrow> take (length kw) (c # cs) = kw \<or> substring kw cs"
  proof
    assume "substring kw (c # cs)"
    then obtain p s where ps: "c # cs = p @ kw @ s" unfolding substring_def by blast
    show "take (length kw) (c # cs) = kw \<or> substring kw cs"
    proof (cases p)
      case Nil
      with ps show ?thesis by simp
    next
      case (Cons x p')
      with ps have "cs = p' @ kw @ s" by simp
      then show ?thesis unfolding substring_def by blast
    qed
  next
    assume "take (length kw) (c # cs) = kw \<or> substring kw cs"
    then show "substring kw (c # cs)"
    proof
      assume "take (length kw) (c # cs) = kw"
      then have "c # cs = [] @ kw @ drop (length kw) (c # cs)"
        by (metis append_Nil append_take_drop_id)
      then show ?thesis unfolding substring_def by blast
    next
      assume "substring kw cs"
      then obtain p s where "cs = p @ kw @ s" unfolding substring_def by blast
      then have "c # cs = (c # p) @ kw @ s" by simp
      then show ?thesis unfolding substring_def by blast
    qed
  qed
  with Cons.IH show ?case by simp
qed

lemma foldl_set_add:
  "distinct kws \<Longrightarrow> set acc \<inter> set kws = {} \<Longrightarrow>
   foldl (\<lambda>rs kw. if P kw then set_add rs kw else rs) acc kws = acc @ filter P kws"
proof (induction kws arbitrary: acc)
  case Nil
  then show ?case by simp
next
  case (Cons k kws)
  from Cons.prems have k: "k \<notin> set acc" and d: "distinct kws" and kk: "k \<notin> set kws"
    and ac: "set acc \<inter> set kws = {}" by auto
  show ?case
  proof (cases "P k")
    case True
    have "set (acc @ [k]) \<inter> set kws = {}" using ac kk by auto
    from Cons.IH [OF d this] True k show ?thesis by (simp add: set_add_def)
  next
    case False
    from Cons.IH [OF d ac] False show ?thesis by simp
  qed
qed

lemma RISK_KEYWORDS_distinct: "distinct RISK_KEYWORDS"
  by (simp add: RISK_KEYWORDS_def js_def cu_def)

lemma multiple_auctions_fresh: "js ''multiple_auctions'' \<notin> set RISK_KEYWORDS"
  by (simp add: RISK_KEYWORDS_def js_def cu_def)

lemma evaluate_risks_eq:
  "evaluate_risks a =
   filter (\<lambda>kw. str_includes (toLowerCase (risk_text a)) kw) RISK_KEYWORDS @
   (if 2 \<le> auctionCount a then [js ''multiple_auctions''] else [])"
  using multiple_auctions_fresh
  by (simp add: evaluate_risks_def Let_def foldl_set_add [OF RISK_KEYWORDS_distinct] set_add_def)

lemma evaluate_risks_distinct: "distinct (evaluate_risks a)"
  using multiple_auctions_fresh RISK_KEYWORDS_distinct
  by (auto simp: evaluate_risks_eq)

lemma AUCTION_RE_substring:
  "AUCTION_RE l \<longleftrightarrow>
   (\<exists>kw\<in>set (map js [''copart'', ''iaai'', ''auction'', ''salvage'']). substring kw (map ascii_lower l))"
  by (simp add: AUCTION_RE_def Let_def str_includes_substring)

text \<open>
  Claim C7, as the code has it. The text searched is the serialization of the web hits, a
  space, and the serialization of the raw decode response (\<open>aggregates.nhtsa\<close>, not the
  six decoded facts), lower-cased. The risk labels are the keywords of the fixed list
  that occur in it as substrings, in the order of the list, each once, followed by
  \<open>multiple_auctions\<close> when the auction count is at least 2; the labels are distinct,
  and the node is a function of the aggregate alone.
\<close>

theorem risk_evaluator:
  "evaluate_risks a =
     filter (\<lambda>kw. substring kw (toLowerCase (risk_text a))) RISK_KEYWORDS @
     (if 2 \<le> auctionCount a then [js ''multiple_auctions''] else []) \<and>
   distinct (evaluate_risks a) \<and>
   risk_text a =
     stringify (JArr (map hit_json (hits_of a))) @ js '' '' @
     stringify (case nhtsa a of None \<Rightarrow> JObj [] | Some v \<Rightarrow> if truthy v then v else JObj []) \<and>
   RISK_KEYWORDS =
     map js [''salvage'', ''totaled'', ''accident'', ''crash'', ''flood'', ''hail'', ''fire'',
             ''theft'', ''stolen'', ''copart'', ''iaai'', ''auction'', ''odometer rollback'',
             ''mileage rollback'', ''write-off'', ''damaged'', ''repairable''] \<and>
   nodeRisks \<lparr>input = i, norm = n, aggregates = Some a\<rparr> =
     Inr \<lparr>p_norm = None, p_aggregates = Some (a\<lparr>risks := Some (evaluate_risks a)\<rparr>)\<rparr>"
proof -
  have 1: "evaluate_risks a =
     filter (\<lambda>kw. substring kw (toLowerCase (risk_text a))) RISK_KEYWORDS @
     (if 2 \<le> auctionCount a then [js ''multiple_auctions''] else [])"
    by (simp add: evaluate_risks_eq str_includes_substring)
  have 2: "RISK_KEYWORDS =
     map js [''salvage'', ''totaled'', ''accident'', ''crash'', ''flood'', ''hail'', ''fire'',
             ''theft'', ''stolen'', ''copart'', ''iaai'', ''auction'', ''odometer rollback'',
             ''mileage rollback'', ''write-off'', ''damaged'', ''repairable'']"
    by (simp add: RISK_KEYWORDS_def)
  have 3: "nodeRisks \<lparr>input = i, norm = n, aggregates = Some a\<rparr> =
     Inr \<lparr>p_norm = None, p_aggregates = Some (a\<lparr>risks := Some (evaluate_risks a)\<rparr>)\<rparr>"
    by (simp add: nodeRisks_def)
  from 1 2 3 evaluate_risks_distinct [of a] show ?thesis
    by (simp add: risk_text_def)
qed

lemmas text_eval =
  risk_text_def facts_risk_text_def hits_of_def hit_json_def opt_field_def facts_json_def
  opt_json_field_def quote_def escape_unit_def is_high_surrogate_def is_low_surrogate_def
  String_int_def String_nat.simps toLowerCase_def lower_unit_def between_def js_def cu_def
  decoded_aggregate_def decode_response_def empty_aggregate_def hit_with_link_def
  path_auction_aggregate_def two_auction_aggregate_def reference_vin_def

lemma decoded_text:
  "toLowerCase (risk_text decoded_aggregate) =
   js ''[] {\"count\":1,\"results\":[{\"make\":\"honda\",\"model\":\"accord\",\"series\":\"fire\"}]}''"
  by (simp add: text_eval)


lemma decoded_facts_text:
  "toLowerCase (facts_risk_text decoded_aggregate) =
   js ''[] {\"make\":\"honda\",\"model\":\"accord\"}''"
  by (simp add: text_eval)

lemma decoded_auctionCount: "auctionCount decoded_aggregate = 0"
  by (simp add: auctionCount_def text_eval)

lemma decoded_risks: "evaluate_risks decoded_aggregate = [js ''fire'']"
  unfolding evaluate_risks_eq decoded_text decoded_auctionCount
  by (simp add: RISK_KEYWORDS_def js_def cu_def)

theorem risk_evaluator_witness:
  "evaluate_risks decoded_aggregate = [js ''fire''] \<and>
   substring (js ''fire'') (toLowerCase (risk_text decoded_aggregate)) \<and>
   distinct (evaluate_risks decoded_aggregate)"
proof -
  let ?t = "toLowerCase (risk_text decoded_aggregate)"
  from risk_evaluator [of decoded_aggregate "[]" None]
  have e: "evaluate_risks decoded_aggregate =
      filter (\<lambda>kw. substring kw ?t) RISK_KEYWORDS @
      (if 2 \<le> auctionCount decoded_aggregate then [js ''multiple_auctions''] else [])"
    and d: "distinct (evaluate_risks decoded_aggregate)"
    by blast+
  have "js ''fire'' \<in> set (evaluate_risks decoded_aggregate)" by (simp add: decoded_risks)
  then have "js ''fire'' \<in> set (filter (\<lambda>kw. substring kw ?t) RISK_KEYWORDS @
      (if 2 \<le> auctionCount decoded_aggregate then [js ''multiple_auctions''] else []))"
    using e by simp
  moreover have "js ''fire'' \<noteq> js ''multiple_auctions''" by (simp add: js_def)
  ultimately have "substring (js ''fire'') ?t" by (auto split: if_splits)
  with d decoded_risks show ?thesis by simp
qed

text \<open>
  The claim says that the text is made of the web hits and the decoded facts. For a
  decode response whose \<open>Series\<close> is "Fire" the label \<open>fire\<close> is raised, and the text
  of the hits and the facts does not contain it.
\<close>

theorem risk_text_is_not_the_facts:
  "js ''fire'' \<in> set (evaluate_risks decoded_aggregate) \<and>
   \<not> str_includes (toLowerCase (facts_risk_text decoded_aggregate)) (js ''fire'')"
  unfolding decoded_risks decoded_facts_text
  by (simp add: js_def cu_def)

section \<open>The auction count\<close>

lemma path_auction_text:
  "toLowerCase (risk_text path_auction_aggregate) =
   js ''[{\"link\":\"https://example.com/auction/1\"},{\"link\":\"https://example.com/auction/2\"}] {}''"
  by (simp add: text_eval)

lemma path_auctionCount: "auctionCount path_auction_aggregate = 2"
  by (simp add: auctionCount_def AUCTION_RE_def ascii_lower_def text_eval)

lemma path_host_auctionCount: "host_auctionCount path_auction_aggregate = 0"
  by (simp add: host_auctionCount_def link_host_def AUCTION_RE_def ascii_lower_def text_eval)

lemma two_auction_text:
  "toLowerCase (risk_text two_auction_aggregate) =
   js ''[{\"link\":\"https://www.copart.com/x\"},{\"link\":\"https://www.iaai.com/y\"}] {}''"
  by (simp add: text_eval)

lemma two_auctionCount: "auctionCount two_auction_aggregate = 2"
  by (simp add: auctionCount_def AUCTION_RE_def ascii_lower_def text_eval)

lemma two_auction_risks:
  "evaluate_risks two_auction_aggregate = [js ''copart'', js ''iaai'', js ''multiple_auctions'']"
  unfolding evaluate_risks_eq two_auction_text two_auctionCount
  by (simp add: RISK_KEYWORDS_def js_def cu_def)

text \<open>
  Claim C8, as the code has it. The label \<open>multiple_auctions\<close> is in the risk set exactly
  when at least 2 web hits have a link that contains, anywhere in it and in either ASCII
  case, one of \<open>copart\<close>, \<open>iaai\<close>, \<open>auction\<close>, \<open>salvage\<close>. For the two hits with
  the links https://www.copart.com/x and https://www.iaai.com/y the risk set is
  \<open>copart\<close>, \<open>iaai\<close>, \<open>multiple_auctions\<close>.
\<close>

theorem multiple_auctions_rule:
  "(js ''multiple_auctions'' \<in> set (evaluate_risks a) \<longleftrightarrow> 2 \<le> auctionCount a) \<and>
   auctionCount a =
     length (filter
       (\<lambda>h. \<exists>kw\<in>set (map js [''copart'', ''iaai'', ''auction'', ''salvage'']).
              substring kw (map ascii_lower (case link h of None \<Rightarrow> [] | Some l \<Rightarrow> l)))
       (hits_of a)) \<and>
   evaluate_risks two_auction_aggregate = [js ''copart'', js ''iaai'', js ''multiple_auctions'']"
proof -
  have 1: "js ''multiple_auctions'' \<in> set (evaluate_risks a) \<longleftrightarrow> 2 \<le> auctionCount a"
    using multiple_auctions_fresh by (auto simp: evaluate_risks_eq)
  have 2: "auctionCount a =
     length (filter
       (\<lambda>h. \<exists>kw\<in>set (map js [''copart'', ''iaai'', ''auction'', ''salvage'']).
              substring kw (map ascii_lower (case link h of None \<Rightarrow> [] | Some l \<Rightarrow> l)))
       (hits_of a))"
    unfolding auctionCount_def AUCTION_RE_substring ..
  from 1 2 two_auction_risks show ?thesis by blast
qed

theorem multiple_auctions_rule_witness:
  "2 \<le> auctionCount two_auction_aggregate \<and>
   js ''multiple_auctions'' \<in> set (evaluate_risks two_auction_aggregate) \<and>
   hits_of two_auction_aggregate =
     [hit_with_link ''https://www.copart.com/x'', hit_with_link ''https://www.iaai.com/y'']"
proof -
  have "hits_of two_auction_aggregate =
     [hit_with_link ''https://www.copart.com/x'', hit_with_link ''https://www.iaai.com/y'']"
    by (simp add: hits_of_def two_auction_aggregate_def empty_aggregate_def)
  then show ?thesis
    using multiple_auctions_rule [of two_auction_aggregate] two_auctionCount by simp
qed

text \<open>
  The claim counts the hits whose link host matches. Two hits on the host example.com
  with \<open>auction\<close> in the path raise \<open>multiple_auctions\<close>, and no host matches.
\<close>

theorem path_counts_as_auction:
  "js ''multiple_auctions'' \<in> set (evaluate_risks path_auction_aggregate) \<and>
   host_auctionCount path_auction_aggregate = 0"
proof -
  have "evaluate_risks path_auction_aggregate = [js ''auction'', js ''multiple_auctions'']"
    unfolding evaluate_risks_eq path_auction_text path_auctionCount
    by (simp add: RISK_KEYWORDS_def js_def cu_def)
  then show ?thesis by (simp add: path_host_auctionCount)
qed


section \<open>The markers\<close>

lemma not_truthy_no_prop: "\<not> truthy r \<Longrightarrow> get_prop r k = None"
  by (cases r) simp_all

lemma chain_first_row:
  "opt_chain (first_result x) (\<lambda>r. get_prop r k) = get_prop (first_row x) k"
proof (cases "first_result x")
  case None
  then show ?thesis by (simp add: opt_chain_def first_row_def)
next
  case (Some r)
  then show ?thesis
    by (cases r) (simp_all add: opt_chain_def first_row_def)
qed

lemma decodedOk_first_row:
  "decodedOk a \<longleftrightarrow> (\<exists>m. get_prop (first_row (nhtsa a)) (js ''Model'') = Some m \<and> truthy m)"
  by (simp add: decodedOk_def chain_first_row split: option.splits)

lemma vin_info_facts:
  assumes "nodeVinInfo e st = Inr p" and "p_aggregates p = Some a'"
  shows "\<exists>f. facts a' = Some f \<and> Model f = get_prop (first_row (nhtsa a')) (js ''Model'')"
  using assms
  by (auto simp: nodeVinInfo_def empty_patch_def Let_def
      split: option.splits if_splits sum.splits)

lemma vin_info_decodedOk:
  assumes "nodeVinInfo e st = Inr p" and "p_aggregates p = Some a'"
  shows "decodedOk a' \<longleftrightarrow> (\<exists>f m. facts a' = Some f \<and> Model f = Some m \<and> truthy m)"
proof -
  from vin_info_facts [OF assms] obtain f where
    "facts a' = Some f" "Model f = get_prop (first_row (nhtsa a')) (js ''Model'')"
    by blast
  then show ?thesis by (auto simp: decodedOk_first_row)
qed

text \<open>
  Claim C9, as the code has it. With no web hits \<open>web_presence\<close> is
  \<open>{ok: false, note: "no hits"}\<close>; with one or more risk labels \<open>risk_flags\<close> is
  \<open>{ok: false, note: the labels joined by ", "}\<close> and with none it is
  \<open>{ok: true, note: "none"}\<close>; \<open>vin_decoded\<close> exists exactly for a VIN, its \<open>ok\<close>
  is true exactly when the first result of the raw decode response has a truthy Model
  (which is the Model of the facts when the aggregate comes from the decode stage), and
  its note is "NHTSA decoded" when decoded and "no decode" otherwise.
\<close>

theorem marker_rules:
  "(hits_of a = [] \<longrightarrow>
      web_presence (compute_markers n a) = \<lparr>ok = False, note = Some (js ''no hits'')\<rparr>) \<and>
   (risks a = Some rs \<and> rs \<noteq> [] \<longrightarrow>
      risk_flags (compute_markers n a) = \<lparr>ok = False, note = Some (join (js '', '') rs)\<rparr>) \<and>
   (risks a = None \<or> risks a = Some [] \<longrightarrow>
      risk_flags (compute_markers n a) = \<lparr>ok = True, note = Some (js ''none'')\<rparr>) \<and>
   (kind n = Vin \<longrightarrow>
      vin_decoded (compute_markers n a) =
        Some \<lparr>ok = decodedOk a,
              note = Some (if decodedOk a then js ''NHTSA decoded'' else js ''no decode'')\<rparr>) \<and>
   (kind n \<noteq> Vin \<longrightarrow> vin_decoded (compute_markers n a) = None) \<and>
   (decodedOk a \<longleftrightarrow> (\<exists>m. get_prop (first_row (nhtsa a)) (js ''Model'') = Some m \<and> truthy m)) \<and>
   (nodeVinInfo e st = Inr p \<and> p_aggregates p = Some a \<longrightarrow>
      (decodedOk a \<longleftrightarrow> (\<exists>f m. facts a = Some f \<and> Model f = Some m \<and> truthy m))) \<and>
   nodeMarkers \<lparr>input = i, norm = Some n, aggregates = Some a\<rparr> =
     Inr \<lparr>p_norm = None, p_aggregates = Some (a\<lparr>markers := Some (compute_markers n a)\<rparr>)\<rparr>"
proof -
  have 1: "hits_of a = [] \<longrightarrow>
      web_presence (compute_markers n a) = \<lparr>ok = False, note = Some (js ''no hits'')\<rparr>"
    by (simp add: compute_markers_def Let_def)
  have 2: "risks a = Some rs \<and> rs \<noteq> [] \<longrightarrow>
      risk_flags (compute_markers n a) = \<lparr>ok = False, note = Some (join (js '', '') rs)\<rparr>"
    by (simp add: compute_markers_def Let_def)
  have 3: "risks a = None \<or> risks a = Some [] \<longrightarrow>
      risk_flags (compute_markers n a) = \<lparr>ok = True, note = Some (js ''none'')\<rparr>"
    by (auto simp: compute_markers_def Let_def)
  have 4: "kind n = Vin \<longrightarrow>
      vin_decoded (compute_markers n a) =
        Some \<lparr>ok = decodedOk a,
              note = Some (if decodedOk a then js ''NHTSA decoded'' else js ''no decode'')\<rparr>"
    by (simp add: compute_markers_def Let_def)
  have 5: "kind n \<noteq> Vin \<longrightarrow> vin_decoded (compute_markers n a) = None"
    by (simp add: compute_markers_def Let_def)
  have 6: "nodeMarkers \<lparr>input = i, norm = Some n, aggregates = Some a\<rparr> =
     Inr \<lparr>p_norm = None, p_aggregates = Some (a\<lparr>markers := Some (compute_markers n a)\<rparr>)\<rparr>"
    by (simp add: nodeMarkers_def)
  from 1 2 3 4 5 6 decodedOk_first_row [of a] vin_info_decodedOk [of e st p a]
  show ?thesis by blast
qed

lemma decoded_aggregate_ok: "decodedOk decoded_aggregate"
  by (simp add: decodedOk_def first_result_def opt_chain_def decoded_aggregate_def
      decode_response_def empty_aggregate_def js_def cu_def)

theorem marker_rules_witness:
  "hits_of risky_aggregate = [] \<and>
   web_presence (compute_markers \<lparr>kind = Vin, value = reference_vin\<rparr> risky_aggregate) =
     \<lparr>ok = False, note = Some (js ''no hits'')\<rparr> \<and>
   risk_flags (compute_markers \<lparr>kind = Vin, value = reference_vin\<rparr> risky_aggregate) =
     \<lparr>ok = False, note = Some (js ''fire, hail'')\<rparr> \<and>
   risk_flags (compute_markers \<lparr>kind = Vin, value = reference_vin\<rparr> decoded_aggregate) =
     \<lparr>ok = True, note = Some (js ''none'')\<rparr> \<and>
   vin_decoded (compute_markers \<lparr>kind = Vin, value = reference_vin\<rparr> decoded_aggregate) =
     Some \<lparr>ok = True, note = Some (js ''NHTSA decoded'')\<rparr> \<and>
   vin_decoded (compute_markers \<lparr>kind = Plate, value = js ''AB1234CD''\<rparr> decoded_aggregate) = None"
proof -
  let ?n = "\<lparr>kind = Vin, value = reference_vin\<rparr>"
  have h: "hits_of risky_aggregate = []"
    by (simp add: risky_aggregate_def hits_of_def decoded_aggregate_def empty_aggregate_def)
  have r: "risks risky_aggregate = Some [js ''fire'', js ''hail''] \<and> [js ''fire'', js ''hail''] \<noteq> []"
    by (simp add: risky_aggregate_def)
  have j: "join (js '', '') [js ''fire'', js ''hail''] = js ''fire, hail''"
    by (simp add: js_def)
  have n: "risks decoded_aggregate = None"
    by (simp add: decoded_aggregate_def empty_aggregate_def)
  have k: "kind ?n = Vin" "kind \<lparr>kind = Plate, value = js ''AB1234CD''\<rparr> \<noteq> Vin" by simp_all
  show ?thesis
    using marker_rules [of risky_aggregate ?n "[js ''fire'', js ''hail'']"]
      marker_rules [of decoded_aggregate ?n]
      marker_rules [of decoded_aggregate "\<lparr>kind = Plate, value = js ''AB1234CD''\<rparr>"]
      h r j n k decoded_aggregate_ok
    by simp
qed

text \<open>
  The claim gives the note "decoded". For a VIN whose facts hold the Model "Accord" the
  marker is not \<open>{ok: true, note: "decoded"}\<close>.
\<close>

theorem decoded_note_is_not_decoded:
  "kind \<lparr>kind = Vin, value = reference_vin\<rparr> = Vin \<and>
   map_option Model (facts decoded_aggregate) = Some (Some (JStr (js ''Accord''))) \<and>
   vin_decoded (compute_markers \<lparr>kind = Vin, value = reference_vin\<rparr> decoded_aggregate) \<noteq>
     Some \<lparr>ok = True, note = Some (js ''decoded'')\<rparr>"
  using decoded_aggregate_ok
  by (simp add: compute_markers_def Let_def decoded_aggregate_def empty_aggregate_def js_def cu_def)


end
